theory Spec2Isabelle
  imports Main "HOL-Library.AList"
begin

section \<open>Values of the host language\<close>

text \<open>
  The class \<^verbatim>\<open>DebugLogger\<close> stores and inspects payloads of type \<^verbatim>\<open>any\<close>. The payloads
  of this model are plain data: \<^verbatim>\<open>undefined\<close>, \<^verbatim>\<open>null\<close>, booleans, numbers, strings,
  arrays without holes, and objects made of data properties whose prototype is
  \<^verbatim>\<open>Object.prototype\<close>. Accessors, symbols, cyclic structures and objects of other
  classes are outside it. Numbers are the integers (the values \<^verbatim>\<open>Date.now()\<close> yields)
  together with \<^verbatim>\<open>NaN\<close>; strings are lists of code units below 256.

  An array or object carries the address of the object it is: \<^verbatim>\<open>===\<close> on two objects
  compares the addresses and never looks at the contents. The property list of an object
  holds its own enumerable properties in the order of their creation. Allocation is not
  tracked: the objects the logger builds itself carry the address \<open>0\<close>, and no property
  below depends on which objects they are.

  Reading a property that a value does not own continues along its prototype chain, so a
  read can return an object of the host: a built-in function or a prototype object. These
  are values too (\<open>JFun\<close>, named by where the standard defines them, and \<open>JProto\<close>),
  although no caller is expected to pass one in.

  \<^verbatim>\<open>JSON.stringify\<close> and \<^verbatim>\<open>JSON.parse\<close> are functions of the host language; they are
  written out here, for the values of this model, as the language standard defines them.
\<close>

datatype kind = KObject | KArray | KString | KNumber | KBoolean | KFunction

datatype jsval =
    JUndefined
  | JNull
  | JBool bool
  | JNum int
  | JNaN
  | JStr string
  | JArr nat "jsval list"
  | JObj nat "(string \<times> jsval) list"
  | JFun string
  | JProto kind

text \<open>\<^verbatim>\<open>!v\<close> is true exactly on the falsy values.\<close>

fun truthy :: "jsval \<Rightarrow> bool" where
  "truthy JUndefined = False"
| "truthy JNull = False"
| "truthy (JBool b) = b"
| "truthy (JNum n) = (n \<noteq> 0)"
| "truthy JNaN = False"
| "truthy (JStr s) = (s \<noteq> [])"
| "truthy (JArr a xs) = True"
| "truthy (JObj a kvs) = True"
| "truthy (JFun f) = True"
| "truthy (JProto K) = True"

text \<open>\<^verbatim>\<open>a === b\<close>: by value on primitives (\<^verbatim>\<open>NaN\<close> equals nothing), by identity on objects.\<close>

fun strict_eq :: "jsval \<Rightarrow> jsval \<Rightarrow> bool" where
  "strict_eq JUndefined w = (w = JUndefined)"
| "strict_eq JNull w = (w = JNull)"
| "strict_eq (JBool a) w = (w = JBool a)"
| "strict_eq (JNum a) w = (w = JNum a)"
| "strict_eq JNaN w = False"
| "strict_eq (JStr a) w = (w = JStr a)"
| "strict_eq (JArr a xs) w = (case w of JArr b ys \<Rightarrow> a = b | _ \<Rightarrow> False)"
| "strict_eq (JObj a kvs) w = (case w of JObj b lws \<Rightarrow> a = b | _ \<Rightarrow> False)"
| "strict_eq (JFun f) w = (w = JFun f)"
| "strict_eq (JProto K) w = (w = JProto K)"

subsection \<open>Numbers as text\<close>

definition digit :: "nat \<Rightarrow> char" where
  "digit d = char_of (48 + d)"

fun show_nat :: "nat \<Rightarrow> string" where
  "show_nat n = (if n < 10 then [digit n] else show_nat (n div 10) @ [digit (n mod 10)])"

declare show_nat.simps [simp del]

text \<open>
  \<^verbatim>\<open>String(n)\<close> for an integer \<open>n\<close>, as long as the host language writes it without an
  exponent.
\<close>

definition show_int :: "int \<Rightarrow> string" where
  "show_int i = (if i < 0 then CHR ''-'' # show_nat (nat (- i)) else show_nat (nat i))"

text \<open>\<^verbatim>\<open>n.toFixed(2)\<close> for an integer \<open>n\<close>.\<close>

definition toFixed2 :: "int \<Rightarrow> string" where
  "toFixed2 i = show_int i @ ''.00''"

definition is_digit :: "char \<Rightarrow> bool" where
  "is_digit c = (48 \<le> (of_char c :: nat) \<and> (of_char c :: nat) \<le> 57)"

definition digit_val :: "char \<Rightarrow> nat" where
  "digit_val c = of_char c - 48"

definition of_digits :: "string \<Rightarrow> int" where
  "of_digits ds = fold (\<lambda>c n. n * 10 + int (digit_val c)) ds 0"

subsection \<open>Own properties and their order\<close>

text \<open>
  A key is an array index if it is the decimal text of a number below \<open>2\<^sup>3\<^sup>2 - 1\<close>,
  written without a sign or a redundant zero.
\<close>

definition array_index :: "string \<Rightarrow> int option" where
  "array_index k =
     (if k \<noteq> [] \<and> list_all is_digit k \<and> (length k = 1 \<or> hd k \<noteq> CHR ''0'')
         \<and> of_digits k < 4294967295
      then Some (of_digits k) else None)"

text \<open>
  The order in which the own properties of an object are enumerated: the array indices
  first, by ascending value, then the other keys in the order of their creation.
\<close>

definition ordered :: "(string \<times> 'v) list \<Rightarrow> (string \<times> 'v) list" where
  "ordered kvs =
     sort_key (\<lambda>kv. case array_index (fst kv) of Some i \<Rightarrow> i | None \<Rightarrow> 0)
       (filter (\<lambda>kv. array_index (fst kv) \<noteq> None) kvs)
     @ filter (\<lambda>kv. array_index (fst kv) = None) kvs"

text \<open>\<^verbatim>\<open>Object.keys(v)\<close> for a value that is neither \<^verbatim>\<open>null\<close> nor \<^verbatim>\<open>undefined\<close>.\<close>

fun object_keys :: "jsval \<Rightarrow> string list" where
  "object_keys (JObj a kvs) = map fst (ordered kvs)"
| "object_keys (JArr a xs) = map show_nat [0..<length xs]"
| "object_keys (JStr s) = map show_nat [0..<length s]"
| "object_keys v = []"

text \<open>The element of \<open>xs\<close> whose index is written \<open>k\<close>, if there is one.\<close>

definition at_index :: "'a list \<Rightarrow> string \<Rightarrow> 'a option" where
  "at_index xs k = map_option (\<lambda>i. xs ! i) (find (\<lambda>i. show_nat i = k) [0..<length xs])"

text \<open>
  The own properties of a value, enumerable or not, as far as the logger can meet them:
  the properties of an object, the elements and the length of an array, the code units
  and the length of a string.
\<close>

fun own_property :: "jsval \<Rightarrow> string \<Rightarrow> jsval option" where
  "own_property (JObj a kvs) k = map_of kvs k"
| "own_property (JArr a xs) k =
     (if k = ''length'' then Some (JNum (int (length xs))) else at_index xs k)"
| "own_property (JStr s) k =
     (if k = ''length'' then Some (JNum (int (length s)))
      else map_option (\<lambda>c. JStr [c]) (at_index s k))"
| "own_property v k = None"

subsection \<open>The prototype chain\<close>

text \<open>
  Every chain ends in \<^verbatim>\<open>Object.prototype\<close>, whose members are fixed by the standard: the
  constructor, ten methods and the accessor \<^verbatim>\<open>__proto__\<close>. The prototype of an array,
  a string, a number, a boolean or a function comes first and redefines some of these
  names; its further members (\<^verbatim>\<open>map\<close>, \<^verbatim>\<open>charAt\<close>, \<^verbatim>\<open>toFixed\<close>, ...) vary with the
  version of the host and are not listed here, so that a read of such a name on a value
  that is not a plain object is outside this model.
\<close>

fun kind_of :: "jsval \<Rightarrow> kind" where
  "kind_of (JArr a xs) = KArray"
| "kind_of (JStr s) = KString"
| "kind_of (JNum n) = KNumber"
| "kind_of JNaN = KNumber"
| "kind_of (JBool b) = KBoolean"
| "kind_of (JFun f) = KFunction"
| "kind_of v = KObject"

fun kind_name :: "kind \<Rightarrow> string" where
  "kind_name KObject = ''Object''"
| "kind_name KArray = ''Array''"
| "kind_name KString = ''String''"
| "kind_name KNumber = ''Number''"
| "kind_name KBoolean = ''Boolean''"
| "kind_name KFunction = ''Function''"

text \<open>The data properties of \<^verbatim>\<open>Object.prototype\<close>, and which of them a prototype redefines.\<close>

definition object_prototype_names :: "string list" where
  "object_prototype_names =
     [''constructor'', ''hasOwnProperty'', ''isPrototypeOf'', ''propertyIsEnumerable'',
      ''toLocaleString'', ''toString'', ''valueOf'', ''__defineGetter__'',
      ''__defineSetter__'', ''__lookupGetter__'', ''__lookupSetter__'']"

fun redefined :: "kind \<Rightarrow> string list" where
  "redefined KObject = object_prototype_names"
| "redefined KArray = [''constructor'', ''toString'', ''toLocaleString'']"
| "redefined KString = [''constructor'', ''toString'', ''valueOf'']"
| "redefined KNumber = [''constructor'', ''toString'', ''toLocaleString'', ''valueOf'']"
| "redefined KBoolean = [''constructor'', ''toString'', ''valueOf'']"
| "redefined KFunction = [''constructor'', ''toString'']"

text \<open>The member \<open>k\<close> of the prototype of kind \<open>K\<close>: a function of the host.\<close>

definition prototype_member :: "kind \<Rightarrow> string \<Rightarrow> jsval" where
  "prototype_member K k =
     (if k = ''constructor'' then JFun (kind_name K)
      else JFun (kind_name K @ ''.prototype.'' @ k))"

text \<open>
  What a value of kind \<open>K\<close> finds under a key it does not own. The accessor
  \<^verbatim>\<open>__proto__\<close> returns the prototype of the value that is read.
\<close>

definition inherited :: "kind \<Rightarrow> string \<Rightarrow> jsval" where
  "inherited K k =
     (if k = ''__proto__'' then JProto K
      else if k \<in> set (redefined K) then prototype_member K k
      else if k \<in> set object_prototype_names then prototype_member KObject k
      else JUndefined)"

text \<open>
  \<^verbatim>\<open>v[k]\<close>. A prototype object owns what its instances inherit, and its own prototype is
  \<^verbatim>\<open>Object.prototype\<close>, whose prototype is \<^verbatim>\<open>null\<close>. Reading a property of \<^verbatim>\<open>null\<close> or
  \<^verbatim>\<open>undefined\<close> raises; the logger never does it.
\<close>

fun get_prop :: "jsval \<Rightarrow> string \<Rightarrow> jsval" where
  "get_prop (JProto K) k =
     (if k = ''__proto__'' then (if K = KObject then JNull else JProto KObject)
      else inherited K k)"
| "get_prop v k = (case own_property v k of Some x \<Rightarrow> x | None \<Rightarrow> inherited (kind_of v) k)"

text \<open>
  Defining a property on a property list, as an object literal, a spread and
  \<^verbatim>\<open>JSON.parse\<close> do: an existing key keeps its place, a new key goes last. This is
  \<^const>\<open>AList.update\<close>.
\<close>

abbreviation set_prop :: "string \<Rightarrow> 'v \<Rightarrow> (string \<times> 'v) list \<Rightarrow> (string \<times> 'v) list" where
  "set_prop \<equiv> AList.update"

text \<open>
  The assignment \<^verbatim>\<open>o[k] = v\<close> to a plain object. It defines the property, except for
  the key \<^verbatim>\<open>__proto__\<close> on an object that does not own it: there the assignment runs
  the setter of \<^verbatim>\<open>Object.prototype\<close>, which replaces the prototype of \<open>o\<close> (not recorded
  in this model) and defines nothing.
\<close>

definition assign :: "string \<Rightarrow> 'v \<Rightarrow> (string \<times> 'v) list \<Rightarrow> (string \<times> 'v) list" where
  "assign k v kvs =
     (if k = ''__proto__'' \<and> k \<notin> fst ` set kvs then kvs else set_prop k v kvs)"

text \<open>The properties \<^verbatim>\<open>{...v}\<close> copies out of \<open>v\<close>: the own enumerable ones, in their order.\<close>

definition spread :: "jsval \<Rightarrow> (string \<times> jsval) list" where
  "spread v = (if v = JUndefined \<or> v = JNull then []
               else map (\<lambda>k. (k, get_prop v k)) (object_keys v))"

text \<open>An object literal: the properties are defined from left to right.\<close>

definition object_literal :: "(string \<times> jsval) list \<Rightarrow> jsval" where
  "object_literal kvs = JObj 0 (fold (\<lambda>(k, v). set_prop k v) kvs [])"

subsection \<open>\<^verbatim>\<open>JSON.stringify\<close>\<close>

definition hex_digit :: "nat \<Rightarrow> char" where
  "hex_digit d = (if d < 10 then char_of (48 + d) else char_of (87 + d))"

text \<open>One code unit inside a quoted string.\<close>

definition quote_char :: "char \<Rightarrow> string" where
  "quote_char c =
     (if c = CHR 0x08 then [CHR 0x5C, CHR ''b'']
      else if c = CHR 0x09 then [CHR 0x5C, CHR ''t'']
      else if c = CHR 0x0A then [CHR 0x5C, CHR ''n'']
      else if c = CHR 0x0C then [CHR 0x5C, CHR ''f'']
      else if c = CHR 0x0D then [CHR 0x5C, CHR ''r'']
      else if c = CHR 0x22 then [CHR 0x5C, CHR 0x22]
      else if c = CHR 0x5C then [CHR 0x5C, CHR 0x5C]
      else if (of_char c :: nat) < 32
        then [CHR 0x5C, CHR ''u'', CHR ''0'', CHR ''0'',
              hex_digit (of_char c div 16), hex_digit (of_char c mod 16)]
      else [c])"

definition quote :: "string \<Rightarrow> string" where
  "quote s = CHR 0x22 # concat (map quote_char s) @ [CHR 0x22]"

fun join :: "'a list \<Rightarrow> 'a list list \<Rightarrow> 'a list" where
  "join sep [] = []"
| "join sep [x] = x"
| "join sep (x # y # ys) = x @ sep @ join sep (y # ys)"

text \<open>
  The members of an array or object between their brackets: \<open>gap\<close> is the indentation
  unit (empty for the compact form), \<open>ind\<close> the indentation of the enclosing line.
\<close>

definition wrap :: "string \<Rightarrow> string \<Rightarrow> string \<Rightarrow> string \<Rightarrow> string list \<Rightarrow> string" where
  "wrap lb rb gap ind parts =
     (if parts = [] then lb @ rb
      else if gap = [] then lb @ join '','' parts @ rb
      else lb @ [CHR 0x0A] @ (ind @ gap) @ join ('','' @ [CHR 0x0A] @ (ind @ gap)) parts
              @ [CHR 0x0A] @ ind @ rb)"

text \<open>
  The values for which \<^verbatim>\<open>JSON.stringify\<close> has a text: all but \<^verbatim>\<open>undefined\<close> and the
  functions (\<^verbatim>\<open>Function.prototype\<close> is one).
\<close>

fun written :: "jsval \<Rightarrow> bool" where
  "written JUndefined = False"
| "written (JFun f) = False"
| "written (JProto K) = (K \<noteq> KFunction)"
| "written v = True"

text \<open>
  \<^verbatim>\<open>SerializeJSONProperty\<close>: \<open>None\<close> is the result \<^verbatim>\<open>undefined\<close>. An array element
  without a text is written \<^verbatim>\<open>null\<close>, a property without a text is left out; the
  properties of an object are written in the order of their enumeration. No value of this
  model has a method \<^verbatim>\<open>toJSON\<close>. The prototype objects other than \<^verbatim>\<open>Object.prototype\<close>
  are an empty array and the wrappers of \<^verbatim>\<open>""\<close>, \<^verbatim>\<open>0\<close> and \<^verbatim>\<open>false\<close>.
\<close>

fun ser :: "string \<Rightarrow> string \<Rightarrow> jsval \<Rightarrow> string option" where
  "ser gap ind JUndefined = None"
| "ser gap ind JNull = Some ''null''"
| "ser gap ind (JBool b) = Some (if b then ''true'' else ''false'')"
| "ser gap ind (JNum n) = Some (show_int n)"
| "ser gap ind JNaN = Some ''null''"
| "ser gap ind (JStr s) = Some (quote s)"
| "ser gap ind (JArr a xs) =
     Some (wrap ''['' '']'' gap ind
       (map (\<lambda>x. case ser gap (ind @ gap) x of None \<Rightarrow> ''null'' | Some t \<Rightarrow> t) xs))"
| "ser gap ind (JObj a kvs) =
     Some (wrap ''{'' ''}'' gap ind
       (concat (map (\<lambda>kt. case snd kt of
                             None \<Rightarrow> []
                           | Some t \<Rightarrow> [quote (fst kt) @ '':'' @ (if gap = [] then [] else '' '') @ t])
                    (ordered (map (\<lambda>kv. (fst kv, ser gap (ind @ gap) (snd kv))) kvs)))))"
| "ser gap ind (JFun f) = None"
| "ser gap ind (JProto K) =
     (case K of
        KObject \<Rightarrow> Some ''{}''
      | KArray \<Rightarrow> Some ''[]''
      | KString \<Rightarrow> Some (quote [])
      | KNumber \<Rightarrow> Some ''0''
      | KBoolean \<Rightarrow> Some ''false''
      | KFunction \<Rightarrow> None)"

text \<open>\<^verbatim>\<open>JSON.stringify(v)\<close> and \<^verbatim>\<open>JSON.stringify(v, null, 2)\<close>.\<close>

definition JSON_stringify :: "jsval \<Rightarrow> string option" where
  "JSON_stringify v = ser [] [] v"

definition JSON_stringify_2 :: "jsval \<Rightarrow> string option" where
  "JSON_stringify_2 v = ser ''  '' [] v"

subsection \<open>\<^verbatim>\<open>JSON.parse\<close>\<close>

text \<open>
  The grammar of JSON texts, on the values of this model: a number with a fraction or an
  exponent, and an escaped code unit above \<open>00ff\<close>, denote values outside it and are
  refused. A text is split into tokens, then the tokens are read by a machine with a
  stack of the arrays and objects that are still open.
\<close>

datatype token =
    TLBrace | TRBrace | TLBracket | TRBracket | TColon | TComma
  | TString string | TNumber int | TTrue | TFalse | TNull

text \<open>The four white space characters of JSON.\<close>

definition is_ws :: "char \<Rightarrow> bool" where
  "is_ws c = (c = CHR 0x20 \<or> c = CHR 0x09 \<or> c = CHR 0x0A \<or> c = CHR 0x0D)"

definition hex_val :: "char \<Rightarrow> nat option" where
  "hex_val c =
     (let n = (of_char c :: nat)
      in if 48 \<le> n \<and> n \<le> 57 then Some (n - 48)
         else if 97 \<le> n \<and> n \<le> 102 then Some (n - 87)
         else if 65 \<le> n \<and> n \<le> 70 then Some (n - 55)
         else None)"

definition hex4 :: "char \<Rightarrow> char \<Rightarrow> char \<Rightarrow> char \<Rightarrow> nat option" where
  "hex4 a b c d =
     (case (hex_val a, hex_val b, hex_val c, hex_val d) of
        (Some w, Some x, Some y, Some z) \<Rightarrow> Some (((w * 16 + x) * 16 + y) * 16 + z)
      | _ \<Rightarrow> None)"

definition unescape :: "char \<Rightarrow> char option" where
  "unescape e =
     (if e = CHR 0x22 then Some (CHR 0x22)
      else if e = CHR 0x5C then Some (CHR 0x5C)
      else if e = CHR ''/'' then Some (CHR ''/'')
      else if e = CHR ''b'' then Some (CHR 0x08)
      else if e = CHR ''f'' then Some (CHR 0x0C)
      else if e = CHR ''n'' then Some (CHR 0x0A)
      else if e = CHR ''r'' then Some (CHR 0x0D)
      else if e = CHR ''t'' then Some (CHR 0x09)
      else None)"

text \<open>
  The characters of a string after its opening quote, up to the closing quote, with the
  rest of the text. A raw control character is not allowed.
\<close>

fun lex_string :: "string \<Rightarrow> (string \<times> string) option" where
  "lex_string [] = None"
| "lex_string (c # cs) =
     (if c = CHR 0x22 then Some ([], cs)
      else if c = CHR 0x5C then
        (case cs of
           [] \<Rightarrow> None
         | e # cs1 \<Rightarrow>
             (if e = CHR ''u'' then
                (case cs1 of
                   h1 # h2 # h3 # h4 # cs2 \<Rightarrow>
                     (case hex4 h1 h2 h3 h4 of
                        None \<Rightarrow> None
                      | Some n \<Rightarrow>
                          if n < 256
                          then map_option (\<lambda>(s, r). (char_of n # s, r)) (lex_string cs2)
                          else None)
                 | _ \<Rightarrow> None)
              else (case unescape e of
                      None \<Rightarrow> None
                    | Some d \<Rightarrow> map_option (\<lambda>(s, r). (d # s, r)) (lex_string cs1))))
      else if (of_char c :: nat) < 32 then None
      else map_option (\<lambda>(s, r). (c # s, r)) (lex_string cs))"

text \<open>
  An integer: an optional minus sign and digits without a redundant leading zero.
\<close>

definition lex_number :: "string \<Rightarrow> (int \<times> string) option" where
  "lex_number s =
     (let neg = (s \<noteq> [] \<and> hd s = CHR ''-'');
          body = (if neg then tl s else s);
          ds = takeWhile is_digit body;
          rest = dropWhile is_digit body
      in if ds = [] then None
         else if hd ds = CHR ''0'' \<and> length ds > 1 then None
         else if rest \<noteq> [] \<and> hd rest \<in> {CHR ''.'', CHR ''e'', CHR ''E''} then None
         else Some (if neg then - of_digits ds else of_digits ds, rest))"

lemma lex_string_length: "lex_string cs = Some (s, rest) \<Longrightarrow> length rest < length cs"
proof (induction cs arbitrary: s rest rule: lex_string.induct)
  case 1
  then show ?case by simp
next
  case (2 c cs)
  then show ?case
    by (fastforce split: if_splits list.splits option.splits)
qed

lemma lex_number_length: "lex_number cs = Some (n, rest) \<Longrightarrow> length rest < length cs"
  by (cases cs)
     (auto simp add: lex_number_def Let_def length_dropWhile_le less_Suc_eq_le le_SucI
        split: if_splits dest!: arg_cong[where f=length])

text \<open>The tokens of a text; \<open>None\<close> is a \<^verbatim>\<open>SyntaxError\<close>.\<close>

function lex :: "string \<Rightarrow> token list option" where
  "lex [] = Some []"
| "lex (c # cs) =
     (if is_ws c then lex cs
      else if c = CHR ''{'' then map_option ((#) TLBrace) (lex cs)
      else if c = CHR ''}'' then map_option ((#) TRBrace) (lex cs)
      else if c = CHR ''['' then map_option ((#) TLBracket) (lex cs)
      else if c = CHR '']'' then map_option ((#) TRBracket) (lex cs)
      else if c = CHR '':'' then map_option ((#) TColon) (lex cs)
      else if c = CHR '','' then map_option ((#) TComma) (lex cs)
      else if c = CHR 0x22 then
        (case lex_string cs of
           None \<Rightarrow> None
         | Some (s, rest) \<Rightarrow> map_option ((#) (TString s)) (lex rest))
      else if c = CHR ''-'' \<or> is_digit c then
        (case lex_number (c # cs) of
           None \<Rightarrow> None
         | Some (n, rest) \<Rightarrow> map_option ((#) (TNumber n)) (lex rest))
      else if take 4 (c # cs) = ''true'' then map_option ((#) TTrue) (lex (drop 4 (c # cs)))
      else if take 5 (c # cs) = ''false'' then map_option ((#) TFalse) (lex (drop 5 (c # cs)))
      else if take 4 (c # cs) = ''null'' then map_option ((#) TNull) (lex (drop 4 (c # cs)))
      else None)"
  by pat_completeness auto
termination
  apply (relation "measure length")
  apply simp_all
  subgoal for c cs x2 x y using lex_string_length[of cs x y] by simp
  subgoal for c cs x2 x y using lex_number_length[of "c # cs" x y] by simp
  done

text \<open>
  An open array with its elements so far, an open object with its members so far, and an
  open object whose key has been read and whose value is awaited.
\<close>

datatype frame =
    FArr "jsval list"
  | FObj "(string \<times> jsval) list"
  | FKey "(string \<times> jsval) list" string

text \<open>
  What the machine expects next: a value (or, right after \<^verbatim>\<open>[\<close>, the closing bracket),
  a key (or, right after \<^verbatim>\<open>{\<close>, the closing brace), a colon, a comma or closing
  bracket; or it is done.
\<close>

datatype pstate =
    PValue bool "frame list"
  | PKey bool "frame list"
  | PColon "frame list"
  | PNext "frame list"
  | PDone jsval

text \<open>
  A completed value goes to the innermost open container; a repeated key of an object
  keeps its place and takes the later value.
\<close>

fun deliver :: "jsval \<Rightarrow> frame list \<Rightarrow> pstate option" where
  "deliver v [] = Some (PDone v)"
| "deliver v (FArr es # st) = Some (PNext (FArr (es @ [v]) # st))"
| "deliver v (FKey mem k # st) = Some (PNext (FObj (set_prop k v mem) # st))"
| "deliver v (FObj mem # st) = None"

fun pstep :: "token \<Rightarrow> pstate \<Rightarrow> pstate option" where
  "pstep TLBracket (PValue b st) = Some (PValue True (FArr [] # st))"
| "pstep TLBrace (PValue b st) = Some (PKey True (FObj [] # st))"
| "pstep (TString s) (PValue b st) = deliver (JStr s) st"
| "pstep (TNumber n) (PValue b st) = deliver (JNum n) st"
| "pstep TTrue (PValue b st) = deliver (JBool True) st"
| "pstep TFalse (PValue b st) = deliver (JBool False) st"
| "pstep TNull (PValue b st) = deliver JNull st"
| "pstep TRBracket (PValue True (FArr es # st)) = deliver (JArr 0 es) st"
| "pstep (TString k) (PKey b (FObj mem # st)) = Some (PColon (FKey mem k # st))"
| "pstep TRBrace (PKey True (FObj mem # st)) = deliver (JObj 0 mem) st"
| "pstep TColon (PColon st) = Some (PValue False st)"
| "pstep TComma (PNext (FArr es # st)) = Some (PValue False (FArr es # st))"
| "pstep TRBracket (PNext (FArr es # st)) = deliver (JArr 0 es) st"
| "pstep TComma (PNext (FObj mem # st)) = Some (PKey False (FObj mem # st))"
| "pstep TRBrace (PNext (FObj mem # st)) = deliver (JObj 0 mem) st"
| "pstep t p = None"

fun run :: "token list \<Rightarrow> pstate \<Rightarrow> pstate option" where
  "run [] p = Some p"
| "run (t # ts) p = (case pstep t p of None \<Rightarrow> None | Some p' \<Rightarrow> run ts p')"

text \<open>\<^verbatim>\<open>JSON.parse(s)\<close>: exactly one value, nothing after it.\<close>

definition JSON_parse :: "string \<Rightarrow> jsval option" where
  "JSON_parse s =
     (case lex s of
        None \<Rightarrow> None
      | Some ts \<Rightarrow> (case run ts (PValue False []) of
                      Some (PDone v) \<Rightarrow> Some v
                    | _ \<Rightarrow> None))"

section \<open>The data model of the logger\<close>

text \<open>
  The interfaces of the source, field by field. A field name that two records share, or
  that Isabelle reserves, carries a prefix: \<^verbatim>\<open>level\<close>, \<^verbatim>\<open>error\<close> and \<^verbatim>\<open>context\<close> of a log
  entry are \<open>entry_level\<close>, \<open>entry_error\<close> and \<open>entry_context\<close>. The level of the
  configuration is declared as one of five literals, but at run time it is whatever
  string was assigned to it, so it is a string here.
\<close>

record DebugConfig =
  enabled :: bool
  level :: string
  includeTimestamps :: bool
  includePerformance :: bool
  includeStackTraces :: bool
  logToConsole :: bool
  logToFile :: bool
  logFilePath :: "string option"

text \<open>\<^verbatim>\<open>Partial<DebugConfig>\<close>: every field may be absent.\<close>

record PartialConfig =
  p_enabled :: "bool option"
  p_level :: "string option"
  p_includeTimestamps :: "bool option"
  p_includePerformance :: "bool option"
  p_includeStackTraces :: "bool option"
  p_logToConsole :: "bool option"
  p_logToFile :: "bool option"
  p_logFilePath :: "string option"

record Performance =
  perf_duration :: "int option"
  perf_memory :: "int option"

text \<open>The captured failure of a log entry; an \<^verbatim>\<open>Error\<close> object has the same three fields.\<close>

record ErrorInfo =
  err_name :: string
  err_message :: string
  err_stack :: "string option"

text \<open>
  An absent optional field of a \<^verbatim>\<open>LogEntry\<close> reads \<^verbatim>\<open>undefined\<close>: \<open>data\<close> and the
  context are \<^const>\<open>JUndefined\<close> then, the two structured fields are \<open>None\<close>.
\<close>

record LogEntry =
  timestamp :: string
  entry_level :: string
  component :: string
  action :: string
  message :: string
  data :: jsval
  performance :: "Performance option"
  entry_error :: "ErrorInfo option"
  entry_context :: jsval

record PerformanceMetric =
  operation :: string
  startTime :: int
  endTime :: "int option"
  duration :: "int option"
  metadata :: jsval

text \<open>What one call of the global \<^verbatim>\<open>console\<close> prints.\<close>

datatype console_call =
    Console_error string
  | Console_warn string
  | Console_info string
  | Console_log string
  | Console_group string
  | Console_log_value string jsval
  | Console_groupEnd

text \<open>
  The logger with the console it writes to. \<^verbatim>\<open>performanceMetrics\<close> is a \<^verbatim>\<open>Map\<close>: a list of
  pairs with distinct keys, in insertion order.
\<close>

record DebugLogger =
  config :: DebugConfig
  performanceMetrics :: "(string \<times> PerformanceMetric) list"
  logBuffer :: "LogEntry list"
  console :: "console_call list"

text \<open>The private field \<^verbatim>\<open>maxBufferSize\<close> is initialised once and never assigned again.\<close>

definition maxBufferSize :: nat where
  "maxBufferSize = 1000"

text \<open>
  The readings of the clock one log entry takes: \<^verbatim>\<open>new Date().toISOString()\<close> and
  \<^verbatim>\<open>getTime()\<close>. Every other reading of the clock or of \<^verbatim>\<open>Math.random()\<close> is an argument
  of the operation that takes it.
\<close>

record stamp =
  iso :: string
  ms :: int

text \<open>The process and the browser window the constructor probes.\<close>

record host =
  isNode :: bool
  DIANOIA_DEBUG :: "string option"
  DIANOIA_DEBUG_LEVEL :: "string option"
  isBrowser :: bool
  localStorage :: "(string \<times> string) list option"

section \<open>The logger\<close>

text \<open>
  Every method takes the logger and returns it as it is after the call, next to the
  method's result if it has one. All of them are total: on the values of this model no
  path of the source raises.
\<close>

definition isNodeEnv :: "host \<Rightarrow> bool" where
  "isNodeEnv h = isNode h"

definition isBrowserEnv :: "host \<Rightarrow> bool" where
  "isBrowserEnv h = isBrowser h"

definition getStorage :: "host \<Rightarrow> (string \<times> string) list option" where
  "getStorage h = (if isBrowserEnv h then localStorage h else None)"

definition levels :: "string list" where
  "levels = [''error'', ''warn'', ''info'', ''debug'', ''trace'']"

text \<open>\<^verbatim>\<open>xs.indexOf(x)\<close>: the first position of \<open>x\<close>, or \<open>-1\<close>.\<close>

fun indexOf :: "'a list \<Rightarrow> 'a \<Rightarrow> int" where
  "indexOf [] x = - 1"
| "indexOf (y # ys) x =
     (if y = x then 0 else (let i = indexOf ys x in if i < 0 then - 1 else i + 1))"

definition shouldLog :: "DebugConfig \<Rightarrow> string \<Rightarrow> bool" where
  "shouldLog cfg lvl =
     (if \<not> enabled cfg then False
      else (let currentLevelIndex = indexOf levels (level cfg);
                messageLevelIndex = indexOf levels lvl
            in messageLevelIndex \<le> currentLevelIndex))"

text \<open>\<^verbatim>\<open>toUpperCase\<close> on the letters a to z.\<close>

definition toUpperCase :: "string \<Rightarrow> string" where
  "toUpperCase s =
     map (\<lambda>c. if 97 \<le> (of_char c :: nat) \<and> (of_char c :: nat) \<le> 122
               then char_of ((of_char c :: nat) - 32) else c) s"

definition performance_to_js :: "Performance \<Rightarrow> jsval" where
  "performance_to_js p =
     JObj 0 ((case perf_duration p of None \<Rightarrow> [] | Some d \<Rightarrow> [(''duration'', JNum d)])
           @ (case perf_memory p of None \<Rightarrow> [] | Some m \<Rightarrow> [(''memory'', JNum m)]))"

definition error_to_js :: "ErrorInfo \<Rightarrow> jsval" where
  "error_to_js e =
     JObj 0 ([(''name'', JStr (err_name e)), (''message'', JStr (err_message e))]
           @ (case err_stack e of None \<Rightarrow> [] | Some t \<Rightarrow> [(''stack'', JStr t)]))"

definition formatLogEntry :: "DebugConfig \<Rightarrow> LogEntry \<Rightarrow> string" where
  "formatLogEntry cfg entry =
     (if includeTimestamps cfg then ''['' @ timestamp entry @ ''] '' else [])
     @ ''['' @ toUpperCase (entry_level entry) @ ''] ''
     @ ''['' @ component entry @ ''] ''
     @ action entry @ '': '' @ message entry
     @ (case performance entry of
          None \<Rightarrow> []
        | Some p \<Rightarrow> (case perf_duration p of
                       None \<Rightarrow> []
                     | Some d \<Rightarrow> if d \<noteq> 0 then '' ('' @ toFixed2 d @ ''ms)'' else []))
     @ (if truthy (entry_context entry)
        then '' | Context: '' @ (case JSON_stringify (entry_context entry) of
                                   Some t \<Rightarrow> t | None \<Rightarrow> ''undefined'')
        else [])"

definition createLogEntry ::
  "stamp \<Rightarrow> DebugConfig \<Rightarrow> string \<Rightarrow> string \<Rightarrow> string \<Rightarrow> string \<Rightarrow> jsval \<Rightarrow> jsval \<Rightarrow> LogEntry" where
  "createLogEntry st cfg lvl cmp act msg dat ctx =
     (let entry = \<lparr> timestamp = iso st, entry_level = lvl, component = cmp, action = act,
                     message = msg, data = dat, performance = None, entry_error = None,
                     entry_context = ctx \<rparr>
      in if includePerformance cfg
         then entry\<lparr>performance := Some \<lparr> perf_duration = Some (ms st), perf_memory = None \<rparr>\<rparr>
         else entry)"

text \<open>The grouped detail lines of one entry on the console.\<close>

definition debug_details :: "LogEntry \<Rightarrow> console_call list" where
  "debug_details entry =
     (if truthy (data entry) \<or> entry_error entry \<noteq> None \<or> performance entry \<noteq> None
      then [Console_group ([CHR 0xF0, CHR 0x9F, CHR 0x93, CHR 0x8A] @ '' Debug Details'')]
         @ (if truthy (data entry) then [Console_log_value ''Data:'' (data entry)] else [])
         @ (case entry_error entry of
              None \<Rightarrow> [] | Some e \<Rightarrow> [Console_log_value ''Error:'' (error_to_js e)])
         @ (case performance entry of
              None \<Rightarrow> [] | Some p \<Rightarrow> [Console_log_value ''Performance:'' (performance_to_js p)])
         @ (if truthy (entry_context entry)
            then [Console_log_value ''Context:'' (entry_context entry)] else [])
         @ [Console_groupEnd]
      else [])"

definition outputLog :: "LogEntry \<Rightarrow> DebugLogger \<Rightarrow> DebugLogger" where
  "outputLog entry s =
     (if \<not> shouldLog (config s) (entry_level entry) then s
      else
        (let formatted = formatLogEntry (config s) entry;
             s1 = (if logToConsole (config s)
                   then s\<lparr>console := console s
                          @ [if entry_level entry = ''error'' then Console_error formatted
                             else if entry_level entry = ''warn'' then Console_warn formatted
                             else if entry_level entry = ''info'' then Console_info formatted
                             else Console_log formatted]
                          @ debug_details entry\<rparr>
                   else s);
             s2 = s1\<lparr>logBuffer := logBuffer s1 @ [entry]\<rparr>
         in if length (logBuffer s2) > maxBufferSize
            then s2\<lparr>logBuffer := tl (logBuffer s2)\<rparr>
            else s2))"

subsection \<open>The leveled methods\<close>

definition error ::
  "stamp \<Rightarrow> string \<Rightarrow> string \<Rightarrow> string \<Rightarrow> jsval \<Rightarrow> jsval \<Rightarrow> DebugLogger \<Rightarrow> DebugLogger" where
  "error st cmp act msg dat ctx s =
     outputLog (createLogEntry st (config s) ''error'' cmp act msg dat ctx) s"

definition warn ::
  "stamp \<Rightarrow> string \<Rightarrow> string \<Rightarrow> string \<Rightarrow> jsval \<Rightarrow> jsval \<Rightarrow> DebugLogger \<Rightarrow> DebugLogger" where
  "warn st cmp act msg dat ctx s =
     outputLog (createLogEntry st (config s) ''warn'' cmp act msg dat ctx) s"

definition info ::
  "stamp \<Rightarrow> string \<Rightarrow> string \<Rightarrow> string \<Rightarrow> jsval \<Rightarrow> jsval \<Rightarrow> DebugLogger \<Rightarrow> DebugLogger" where
  "info st cmp act msg dat ctx s =
     outputLog (createLogEntry st (config s) ''info'' cmp act msg dat ctx) s"

definition debug ::
  "stamp \<Rightarrow> string \<Rightarrow> string \<Rightarrow> string \<Rightarrow> jsval \<Rightarrow> jsval \<Rightarrow> DebugLogger \<Rightarrow> DebugLogger" where
  "debug st cmp act msg dat ctx s =
     outputLog (createLogEntry st (config s) ''debug'' cmp act msg dat ctx) s"

definition trace ::
  "stamp \<Rightarrow> string \<Rightarrow> string \<Rightarrow> string \<Rightarrow> jsval \<Rightarrow> jsval \<Rightarrow> DebugLogger \<Rightarrow> DebugLogger" where
  "trace st cmp act msg dat ctx s =
     outputLog (createLogEntry st (config s) ''trace'' cmp act msg dat ctx) s"

definition log ::
  "stamp \<Rightarrow> string \<Rightarrow> string \<Rightarrow> string \<Rightarrow> jsval \<Rightarrow> jsval \<Rightarrow> DebugLogger \<Rightarrow> DebugLogger" where
  "log st cmp act msg dat ctx s = debug st cmp act msg dat ctx s"

subsection \<open>Performance tracking\<close>

text \<open>
  \<open>idNow\<close> is the \<^verbatim>\<open>Date.now()\<close> inside the identifier, \<open>rnd\<close> the random suffix,
  \<open>startNow\<close> the \<^verbatim>\<open>getTime()\<close> stored as start time.
\<close>

definition startTimer ::
  "int \<Rightarrow> string \<Rightarrow> int \<Rightarrow> stamp \<Rightarrow> string \<Rightarrow> jsval \<Rightarrow> DebugLogger \<Rightarrow> string \<times> DebugLogger" where
  "startTimer idNow rnd startNow st oper meta s =
     (if \<not> enabled (config s) \<or> \<not> includePerformance (config s) then ([], s)
      else
        (let timerId = oper @ ''_'' @ show_int idNow @ ''_'' @ rnd;
             s1 = s\<lparr>performanceMetrics :=
                      set_prop timerId
                        \<lparr> operation = oper, startTime = startNow, endTime = None,
                          duration = None, metadata = meta \<rparr>
                        (performanceMetrics s)\<rparr>
         in (timerId,
             trace st ''performance'' ''timer_start'' (''Started timer for: '' @ oper)
               (object_literal [(''timerId'', JStr timerId), (''metadata'', meta)])
               JUndefined s1)))"

text \<open>\<open>endNow\<close> is the \<^verbatim>\<open>getTime()\<close> read once the timer has been found.\<close>

definition endTimer :: "int \<Rightarrow> stamp \<Rightarrow> string \<Rightarrow> jsval \<Rightarrow> DebugLogger \<Rightarrow> DebugLogger" where
  "endTimer endNow st timerId additionalData s =
     (if \<not> enabled (config s) \<or> \<not> includePerformance (config s) \<or> timerId = [] then s
      else
        (case map_of (performanceMetrics s) timerId of
           None \<Rightarrow>
             warn st ''performance'' ''timer_end'' (''Timer not found: '' @ timerId)
               JUndefined JUndefined s
         | Some metric \<Rightarrow>
             (let d = endNow - startTime metric;
                  metric1 = metric\<lparr>endTime := Some endNow, duration := Some d\<rparr>;
                  s1 = s\<lparr>performanceMetrics :=
                           set_prop timerId metric1 (performanceMetrics s)\<rparr>;
                  s2 = info st ''performance'' ''timer_end''
                         (''Completed: '' @ operation metric1)
                         (object_literal
                            ([(''duration'', JStr (toFixed2 d @ ''ms'')),
                              (''operation'', JStr (operation metric1)),
                              (''metadata'', metadata metric1)]
                             @ spread additionalData))
                         JUndefined s1
              in s2\<lparr>performanceMetrics := AList.delete timerId (performanceMetrics s2)\<rparr>)))"

subsection \<open>Tracking helpers\<close>

definition trackError ::
  "stamp \<Rightarrow> ErrorInfo \<Rightarrow> string \<Rightarrow> string \<Rightarrow> jsval \<Rightarrow> DebugLogger \<Rightarrow> DebugLogger" where
  "trackError st err cmp act ctx s =
     (let errorData = object_literal
            [(''name'', JStr (err_name err)),
             (''message'', JStr (err_message err)),
             (''stack'', if includeStackTraces (config s)
                         then (case err_stack err of None \<Rightarrow> JUndefined | Some t \<Rightarrow> JStr t)
                         else JUndefined)]
      in error st cmp act (''Error: '' @ err_message err) errorData ctx s)"

definition trackAPIRequest ::
  "int \<Rightarrow> string \<Rightarrow> stamp \<Rightarrow> string \<Rightarrow> string \<Rightarrow> jsval \<Rightarrow> jsval \<Rightarrow> DebugLogger
     \<Rightarrow> string \<times> DebugLogger" where
  "trackAPIRequest idNow rnd st method url dat ctx s =
     (let requestId = ''req_'' @ show_int idNow @ ''_'' @ rnd
      in (requestId,
          info st ''api'' ''request'' (method @ '' '' @ url)
            (object_literal [(''method'', JStr method), (''url'', JStr url), (''data'', dat),
                             (''requestId'', JStr requestId)])
            (object_literal (spread ctx @ [(''requestId'', JStr requestId)])) s))"

definition trackAPIResponse ::
  "stamp \<Rightarrow> string \<Rightarrow> int \<Rightarrow> jsval \<Rightarrow> int option \<Rightarrow> jsval \<Rightarrow> DebugLogger \<Rightarrow> DebugLogger" where
  "trackAPIResponse st requestId status dat dur ctx s =
     info st ''api'' ''response'' (''Response '' @ show_int status @ '' for '' @ requestId)
       (object_literal
          [(''status'', JNum status), (''data'', dat),
           (''duration'', case dur of
                            None \<Rightarrow> JUndefined
                          | Some d \<Rightarrow> if d \<noteq> 0 then JStr (toFixed2 d @ ''ms'') else JUndefined)])
       (object_literal (spread ctx @ [(''requestId'', JStr requestId)])) s"

text \<open>\<^verbatim>\<open>Array.from(new Set(xs))\<close>: the elements of \<open>xs\<close>, each at its first occurrence.\<close>

definition new_Set :: "'a list \<Rightarrow> 'a list" where
  "new_Set xs = fold (\<lambda>x acc. if x \<in> set acc then acc else acc @ [x]) xs []"

record change =
  change_from :: jsval
  change_to :: jsval

definition getStateChanges :: "jsval \<Rightarrow> jsval \<Rightarrow> (string \<times> change) list" where
  "getStateChanges oldState newState =
     (if \<not> truthy oldState \<or> \<not> truthy newState then []
      else fold (\<lambda>key changes.
                   if \<not> strict_eq (get_prop oldState key) (get_prop newState key)
                   then assign key \<lparr> change_from = get_prop oldState key,
                                     change_to = get_prop newState key \<rparr> changes
                   else changes)
             (new_Set (object_keys oldState @ object_keys newState)) [])"

definition changes_to_js :: "(string \<times> change) list \<Rightarrow> jsval" where
  "changes_to_js changes =
     JObj 0 (map (\<lambda>(k, c). (k, JObj 0 [(''from'', change_from c), (''to'', change_to c)]))
               changes)"

definition trackStateChange ::
  "stamp \<Rightarrow> string \<Rightarrow> string \<Rightarrow> jsval \<Rightarrow> jsval \<Rightarrow> jsval \<Rightarrow> DebugLogger \<Rightarrow> DebugLogger" where
  "trackStateChange st cmp act oldState newState ctx s =
     debug st ''state'' ''change'' (cmp @ '' state changed via '' @ act)
       (object_literal [(''oldState'', oldState), (''newState'', newState),
                        (''changes'', changes_to_js (getStateChanges oldState newState))])
       ctx s"

subsection \<open>Configuration and buffer access\<close>

text \<open>\<^verbatim>\<open>{ ...c, ...p }\<close>: a field of \<open>p\<close> that is present replaces the field of \<open>c\<close>.\<close>

definition merge_config :: "DebugConfig \<Rightarrow> PartialConfig \<Rightarrow> DebugConfig" where
  "merge_config c p =
     \<lparr> enabled = (case p_enabled p of None \<Rightarrow> enabled c | Some v \<Rightarrow> v),
       level = (case p_level p of None \<Rightarrow> level c | Some v \<Rightarrow> v),
       includeTimestamps =
         (case p_includeTimestamps p of None \<Rightarrow> includeTimestamps c | Some v \<Rightarrow> v),
       includePerformance =
         (case p_includePerformance p of None \<Rightarrow> includePerformance c | Some v \<Rightarrow> v),
       includeStackTraces =
         (case p_includeStackTraces p of None \<Rightarrow> includeStackTraces c | Some v \<Rightarrow> v),
       logToConsole = (case p_logToConsole p of None \<Rightarrow> logToConsole c | Some v \<Rightarrow> v),
       logToFile = (case p_logToFile p of None \<Rightarrow> logToFile c | Some v \<Rightarrow> v),
       logFilePath = (case p_logFilePath p of None \<Rightarrow> logFilePath c | Some v \<Rightarrow> Some v) \<rparr>"

definition config_to_js :: "DebugConfig \<Rightarrow> jsval" where
  "config_to_js c =
     JObj 0 ([(''enabled'', JBool (enabled c)),
              (''level'', JStr (level c)),
              (''includeTimestamps'', JBool (includeTimestamps c)),
              (''includePerformance'', JBool (includePerformance c)),
              (''includeStackTraces'', JBool (includeStackTraces c)),
              (''logToConsole'', JBool (logToConsole c)),
              (''logToFile'', JBool (logToFile c))]
             @ (case logFilePath c of None \<Rightarrow> [] | Some f \<Rightarrow> [(''logFilePath'', JStr f)]))"

definition updateConfig :: "stamp \<Rightarrow> PartialConfig \<Rightarrow> DebugLogger \<Rightarrow> DebugLogger" where
  "updateConfig st newConfig s =
     (let oldConfig = config s;
          s1 = s\<lparr>config := merge_config (config s) newConfig\<rparr>
      in info st ''system'' ''config_update'' ''Debug configuration updated''
           (object_literal [(''oldConfig'', config_to_js oldConfig),
                            (''newConfig'', config_to_js (config s1))])
           JUndefined s1)"

definition getConfig :: "DebugLogger \<Rightarrow> DebugConfig" where
  "getConfig s = config s"


definition clearLogs :: "stamp \<Rightarrow> DebugLogger \<Rightarrow> DebugLogger" where
  "clearLogs st s =
     info st ''system'' ''logs_cleared'' ''Debug logs cleared'' JUndefined JUndefined
       (s\<lparr>logBuffer := []\<rparr>)"




subsection \<open>Construction\<close>

definition default_config :: DebugConfig where
  "default_config =
     \<lparr> enabled = True, level = ''debug'', includeTimestamps = True, includePerformance = True,
       includeStackTraces = True, logToConsole = True, logToFile = False,
       logFilePath = None \<rparr>"

text \<open>\<open>isoNow\<close> is the \<^verbatim>\<open>new Date().toISOString()\<close> inside the data of the first entry.\<close>

definition initializeDebugMode :: "host \<Rightarrow> string \<Rightarrow> stamp \<Rightarrow> DebugLogger \<Rightarrow> DebugLogger" where
  "initializeDebugMode h isoNow st s =
     (let c0 = config s;
          c1 = (if isNodeEnv h
                then (if DIANOIA_DEBUG h = Some ''false'' then c0\<lparr>enabled := False\<rparr>
                      else (case DIANOIA_DEBUG_LEVEL h of
                              None \<Rightarrow> c0
                            | Some l \<Rightarrow> if l \<noteq> [] then c0\<lparr>level := l\<rparr> else c0))
                else c0);
          c2 = (case getStorage h of
                  None \<Rightarrow> c1
                | Some storage \<Rightarrow>
                    (let debugEnabled = map_of storage ''dianoia_debug_enabled'';
                         c = (if debugEnabled = Some ''false'' then c1\<lparr>enabled := False\<rparr>
                              else if debugEnabled = Some ''true'' then c1\<lparr>enabled := True\<rparr>
                              else c1)
                     in (case map_of storage ''dianoia_debug_level'' of
                           None \<Rightarrow> c
                         | Some debugLevel \<Rightarrow>
                             if debugLevel \<noteq> [] \<and> debugLevel \<in> set levels
                             then c\<lparr>level := debugLevel\<rparr> else c)));
          s1 = s\<lparr>config := c2\<rparr>
      in if enabled c2
         then log st ''system'' ''debug_init'' ''Debug system initialized''
                (object_literal
                   [(''config'', config_to_js c2),
                    (''environment'', JStr (if isBrowserEnv h then ''browser'' else ''node'')),
                    (''timestamp'', JStr isoNow)])
                JUndefined s1
         else s1)"

definition new_DebugLogger :: "host \<Rightarrow> string \<Rightarrow> stamp \<Rightarrow> PartialConfig \<Rightarrow> DebugLogger" where
  "new_DebugLogger h isoNow st cfg =
     initializeDebugMode h isoNow st
       \<lparr> config = merge_config default_config cfg, performanceMetrics = [],
         logBuffer = [], console = [] \<rparr>"

subsection \<open>The public interface\<close>

text \<open>
  One constructor for each public method of the class, with its arguments and the readings
  it takes of the clock and the random source; \<open>perform\<close> runs the method and drops its
  result.
\<close>

datatype call =
    Error stamp string string string jsval jsval
  | Warn stamp string string string jsval jsval
  | Info stamp string string string jsval jsval
  | Debug stamp string string string jsval jsval
  | Trace stamp string string string jsval jsval
  | Log stamp string string string jsval jsval
  | StartTimer int string int stamp string jsval
  | EndTimer int stamp string jsval
  | TrackError stamp ErrorInfo string string jsval
  | TrackAPIRequest int string stamp string string jsval jsval
  | TrackAPIResponse stamp string int jsval "int option" jsval
  | TrackStateChange stamp string string jsval jsval jsval
  | UpdateConfig stamp PartialConfig
  | GetConfig
  | GetLogs
  | ClearLogs stamp
  | ExportLogs

fun perform :: "call \<Rightarrow> DebugLogger \<Rightarrow> DebugLogger" where
  "perform (Error st c a m d x) s = error st c a m d x s"
| "perform (Warn st c a m d x) s = warn st c a m d x s"
| "perform (Info st c a m d x) s = info st c a m d x s"
| "perform (Debug st c a m d x) s = debug st c a m d x s"
| "perform (Trace st c a m d x) s = trace st c a m d x s"
| "perform (Log st c a m d x) s = log st c a m d x s"
| "perform (StartTimer t r t0 st oper meta) s = snd (startTimer t r t0 st oper meta s)"
| "perform (EndTimer t st timerId extra) s = endTimer t st timerId extra s"
| "perform (TrackError st e c a x) s = trackError st e c a x s"
| "perform (TrackAPIRequest t r st m u d x) s = snd (trackAPIRequest t r st m u d x s)"
| "perform (TrackAPIResponse st r n d dur x) s = trackAPIResponse st r n d dur x s"
| "perform (TrackStateChange st c a old new x) s = trackStateChange st c a old new x s"
| "perform (UpdateConfig st p) s = updateConfig st p s"
| "perform GetConfig s = s"
| "perform GetLogs s = s"
| "perform (ClearLogs st) s = clearLogs st s"
| "perform ExportLogs s = s"

section \<open>Vocabulary of the properties\<close>

subsection \<open>Buffer and levels\<close>

text \<open>
  The buffer after \<^verbatim>\<open>push\<close> and the \<^verbatim>\<open>shift\<close> that follows it once the length exceeds
  the bound, as \<^const>\<open>outputLog\<close> does them.
\<close>

definition push_bounded :: "LogEntry \<Rightarrow> LogEntry list \<Rightarrow> LogEntry list" where
  "push_bounded e b = (if length (b @ [e]) > maxBufferSize then tl (b @ [e]) else b @ [e])"

text \<open>The five leveled methods, in the order of \<^const>\<open>levels\<close>.\<close>

definition leveled_methods ::
  "(stamp \<Rightarrow> string \<Rightarrow> string \<Rightarrow> string \<Rightarrow> jsval \<Rightarrow> jsval \<Rightarrow> DebugLogger \<Rightarrow> DebugLogger) list" where
  "leveled_methods = [error, warn, info, debug, trace]"

subsection \<open>Values that JSON represents\<close>

text \<open>
  What \<^verbatim>\<open>JSON.parse(JSON.stringify(v))\<close> is: \<^verbatim>\<open>NaN\<close> and an array element without a
  text have become \<^verbatim>\<open>null\<close>, a property without a text is gone, every object is a new
  one whose properties were created in the order in which those of \<open>v\<close> are enumerated.
\<close>

fun json_image :: "jsval \<Rightarrow> jsval" where
  "json_image JNaN = JNull"
| "json_image (JArr a xs) =
     JArr 0 (map (\<lambda>x. if written x then json_image x else JNull) xs)"
| "json_image (JObj a kvs) =
     JObj 0 (concat (map (\<lambda>kw. case snd kw of None \<Rightarrow> [] | Some w \<Rightarrow> [(fst kw, w)])
                       (ordered (map (\<lambda>kv. (fst kv, if written (snd kv)
                                                      then Some (json_image (snd kv)) else None))
                                   kvs))))"
| "json_image (JProto K) =
     (case K of
        KObject \<Rightarrow> JObj 0 []
      | KArray \<Rightarrow> JArr 0 []
      | KString \<Rightarrow> JStr []
      | KNumber \<Rightarrow> JNum 0
      | KBoolean \<Rightarrow> JBool False
      | KFunction \<Rightarrow> JProto KFunction)"
| "json_image v = v"


text \<open>
  What a value holds, whichever objects hold it: the addresses are forgotten, the
  properties of an object are listed in the order of their enumeration, and a property
  that holds \<^verbatim>\<open>undefined\<close> is left out as if it were absent.
\<close>

fun content :: "jsval \<Rightarrow> jsval" where
  "content (JArr a xs) = JArr 0 (map content xs)"
| "content (JObj a kvs) =
     JObj 0 (concat (map (\<lambda>kw. case snd kw of None \<Rightarrow> [] | Some w \<Rightarrow> [(fst kw, w)])
                       (ordered (map (\<lambda>kv. (fst kv, if snd kv = JUndefined
                                                      then None else Some (content (snd kv))))
                                   kvs))))"
| "content v = v"



subsection \<open>Reading what was written\<close>

text \<open>
  A text that can follow a number: it does not continue the digits and starts no fraction
  or exponent.
\<close>

definition delimited :: "string \<Rightarrow> bool" where
  "delimited rest =
     (case rest of
        [] \<Rightarrow> True
      | c # cs \<Rightarrow> \<not> is_digit c \<and> c \<noteq> CHR ''.'' \<and> c \<noteq> CHR ''e'' \<and> c \<noteq> CHR ''E'')"

text \<open>The tokens of the text that \<^const>\<open>ser\<close> writes for a value.\<close>

fun toks :: "jsval \<Rightarrow> token list option" where
  "toks JUndefined = None"
| "toks JNull = Some [TNull]"
| "toks (JBool b) = Some [if b then TTrue else TFalse]"
| "toks (JNum n) = Some [TNumber n]"
| "toks JNaN = Some [TNull]"
| "toks (JStr s) = Some [TString s]"
| "toks (JArr a xs) =
     Some (TLBracket #
           join [TComma] (map (\<lambda>x. case toks x of None \<Rightarrow> [TNull] | Some t \<Rightarrow> t) xs)
           @ [TRBracket])"
| "toks (JObj a kvs) =
     Some (TLBrace #
           join [TComma]
             (concat (map (\<lambda>kt. case snd kt of
                                   None \<Rightarrow> []
                                 | Some t \<Rightarrow> [TString (fst kt) # TColon # t])
                        (ordered (map (\<lambda>kv. (fst kv, toks (snd kv))) kvs))))
           @ [TRBrace])"
| "toks (JFun f) = None"
| "toks (JProto K) =
     (case K of
        KObject \<Rightarrow> Some [TLBrace, TRBrace]
      | KArray \<Rightarrow> Some [TLBracket, TRBracket]
      | KString \<Rightarrow> Some [TString []]
      | KNumber \<Rightarrow> Some [TNumber 0]
      | KBoolean \<Rightarrow> Some [TFalse]
      | KFunction \<Rightarrow> None)"




subsection \<open>Concrete inputs\<close>

definition sample_stamp :: stamp where
  "sample_stamp = \<lparr> iso = ''2024-01-01T00:00:00.000Z'', ms = 1704067200000 \<rparr>"

definition sample_logger :: DebugLogger where
  "sample_logger = \<lparr> config = default_config, performanceMetrics = [], logBuffer = [], console = [] \<rparr>"

definition with_level :: "string \<Rightarrow> DebugLogger \<Rightarrow> DebugLogger" where
  "with_level l s = s\<lparr>config := (config s)\<lparr>level := l\<rparr>\<rparr>"

definition sample_entry :: "string \<Rightarrow> LogEntry" where
  "sample_entry m = createLogEntry sample_stamp default_config ''info'' ''app'' ''tick'' m JUndefined JUndefined"

definition full_logger :: DebugLogger where
  "full_logger = sample_logger\<lparr>logBuffer := sample_entry ''first'' # replicate 999 (sample_entry ''old'')\<rparr>"

definition no_partial :: PartialConfig where
  "no_partial = \<lparr> p_enabled = None, p_level = None, p_includeTimestamps = None,
     p_includePerformance = None, p_includeStackTraces = None, p_logToConsole = None,
     p_logToFile = None, p_logFilePath = None \<rparr>"

definition node_host :: host where
  "node_host = \<lparr> isNode = True, DIANOIA_DEBUG = None, DIANOIA_DEBUG_LEVEL = None,
     isBrowser = False, localStorage = None \<rparr>"

definition disabled_logger :: DebugLogger where
  "disabled_logger = sample_logger\<lparr>config := default_config\<lparr>enabled := False\<rparr>,
      performanceMetrics := [(''op_1_x'', \<lparr> operation = ''op'', startTime = 1, endTime = None,
                                            duration = None, metadata = JUndefined \<rparr>)]\<rparr>"

definition verbose_host :: host where
  "verbose_host = \<lparr> isNode = True, DIANOIA_DEBUG = None, DIANOIA_DEBUG_LEVEL = Some ''verbose'',
     isBrowser = False, localStorage = None \<rparr>"

definition verbose_logger :: DebugLogger where
  "verbose_logger = new_DebugLogger verbose_host ''2024-01-01T00:00:00.000Z'' sample_stamp no_partial"

definition warn_logger :: DebugLogger where
  "warn_logger = with_level ''warn'' (sample_logger\<lparr>logBuffer := [sample_entry ''old'']\<rparr>)"

definition level_error :: PartialConfig where
  "level_error = no_partial\<lparr>p_level := Some ''error''\<rparr>"

definition info_logger :: DebugLogger where
  "info_logger = with_level ''info'' sample_logger"

definition error_logger :: DebugLogger where
  "error_logger = with_level ''error'' sample_logger"

definition running_logger :: DebugLogger where
  "running_logger = snd (startTimer 5 ''abc'' 5 sample_stamp ''op'' JUndefined sample_logger)"

definition old_state :: jsval where
  "old_state = JObj 1 [(''a'', JNum 1), (''b'', JNum 2)]"

definition new_state :: jsval where
  "new_state = JObj 2 [(''a'', JNum 1), (''b'', JNum 3), (''c'', JNum 4)]"

definition nested_old :: jsval where
  "nested_old = JObj 1 [(''n'', JObj 3 [(''x'', JNum 1)]), (''m'', JObj 5 [(''y'', JNum 1)])]"

definition nested_new :: jsval where
  "nested_new = JObj 2 [(''n'', JObj 4 [(''x'', JNum 1)]), (''m'', JObj 5 [(''y'', JNum 1)])]"

definition proto_state :: jsval where
  "proto_state = JObj 1 [(''__proto__'', JNum 1)]"

definition constructor_state :: jsval where
  "constructor_state = JObj 1 [(''constructor'', JNum 1), (''toString'', JUndefined)]"

definition late_logger :: DebugLogger where
  "late_logger = snd (startTimer 10 ''abc'' 10 sample_stamp ''op'' JUndefined sample_logger)"



section \<open>Basic facts\<close>



lemma distinct_map_insort_key:
  "distinct (map g (insort_key f x xs)) = (g x \<notin> g ` set xs \<and> distinct (map g xs))"
  by (induction xs) (auto simp add: set_insort_key)

lemma distinct_map_sort_key: "distinct (map g (sort_key f xs)) = distinct (map g xs)"
  by (induction xs) (simp_all add: distinct_map_insort_key)

lemma set_ordered [simp]: "set (ordered kvs) = set kvs"
  by (auto simp add: ordered_def)

lemma ordered_Nil [simp]: "ordered [] = []"
  by (simp add: ordered_def)

lemma distinct_map_partition:
  "distinct (map f (filter (\<lambda>x. P (f x)) xs) @ map f (filter (\<lambda>x. \<not> P (f x)) xs)) = distinct (map f xs)"
  by (induction xs) auto

lemma distinct_map_ordered [simp]: "distinct (map fst (ordered kvs)) = distinct (map fst kvs)"
proof -
  let ?P = "\<lambda>k. array_index k \<noteq> None"
  have "distinct (map fst (ordered kvs)) =
        distinct (map fst (filter (\<lambda>kv. ?P (fst kv)) kvs) @ map fst (filter (\<lambda>kv. \<not> ?P (fst kv)) kvs))"
    by (simp add: ordered_def distinct_map_sort_key)
  then show ?thesis
    unfolding distinct_map_partition[of fst ?P kvs] .
qed


lemma ordered_no_index:
  "list_all (\<lambda>kv. array_index (fst kv) = None) kvs \<Longrightarrow> ordered kvs = kvs"
  by (simp add: ordered_def list_all_iff filter_id_conv filter_empty_conv)

lemma map_of_ordered: "distinct (map fst kvs) \<Longrightarrow> map_of (ordered kvs) = map_of kvs"
  by (subst map_of_inject_set) simp_all

lemma array_index_not_digit: "\<not> is_digit c \<Longrightarrow> array_index (c # cs) = None"
  by (simp add: array_index_def)

lemma keys_set_prop: "fst ` set (set_prop k v al) = insert k (fst ` set al)"
  by (induction al) auto

lemma fold_assign:
  "''__proto__'' \<notin> fst ` set acc \<Longrightarrow>
   fold (\<lambda>key changes. if P key then assign key (f key) changes else changes) ks acc =
   fold (\<lambda>key changes. if P key \<and> key \<noteq> ''__proto__'' then set_prop key (f key) changes else changes)
     ks acc"
proof (induction ks arbitrary: acc)
  case Nil
  then show ?case by simp
next
  case (Cons k ks)
  show ?case
  proof (cases "P k \<and> k \<noteq> ''__proto__''")
    case True
    then have "''__proto__'' \<notin> fst ` set (set_prop k (f k) acc)"
      using Cons.prems by (auto simp add: keys_set_prop)
    from Cons.IH[OF this] True show ?thesis by (simp add: assign_def)
  next
    case False
    have "assign ''__proto__'' v acc = acc" for v
      using Cons.prems by (simp add: assign_def)
    with False Cons.IH[OF Cons.prems] show ?thesis by auto
  qed
qed

lemma is_digit_digit: "d < 10 \<Longrightarrow> is_digit (digit d)"
  by (simp add: is_digit_def digit_def)

lemma show_nat_digits: "list_all is_digit (show_nat n)"
proof (induction n rule: show_nat.induct)
  case (1 n)
  show ?case
  proof (cases "n < 10")
    case True
    then show ?thesis by (subst show_nat.simps) (simp add: is_digit_digit)
  next
    case False
    with 1 show ?thesis by (subst show_nat.simps) (simp add: is_digit_digit)
  qed
qed

lemma show_nat_not_Nil: "show_nat n \<noteq> []"
  by (subst show_nat.simps) simp


lemma indexOf_levels:
  "indexOf levels ''error'' = 0" "indexOf levels ''warn'' = 1" "indexOf levels ''info'' = 2"
  "indexOf levels ''debug'' = 3" "indexOf levels ''trace'' = 4"
  by (simp_all add: levels_def)

lemma indexOf_notin: "x \<notin> set xs \<Longrightarrow> indexOf xs x = - 1"
  by (induction xs) (auto simp: Let_def)

lemma indexOf_nth: "distinct xs \<Longrightarrow> i < length xs \<Longrightarrow> indexOf xs (xs ! i) = int i"
proof (induction xs arbitrary: i)
  case Nil then show ?case by simp
next
  case (Cons y ys)
  show ?case
  proof (cases i)
    case 0 then show ?thesis by simp
  next
    case (Suc j)
    with Cons.prems have "ys ! j \<noteq> y" "j < length ys" "distinct ys" by auto
    with Cons.IH[of j] Suc show ?thesis by (simp add: Let_def)
  qed
qed

lemma entry_level_createLogEntry [simp]:
  "entry_level (createLogEntry st cfg lvl c a m d x) = lvl"
  by (simp add: createLogEntry_def Let_def)

lemma logBuffer_outputLog:
  "logBuffer (outputLog e s) =
     (if shouldLog (config s) (entry_level e) then push_bounded e (logBuffer s) else logBuffer s)"
  by (simp add: outputLog_def push_bounded_def Let_def)

lemma config_outputLog [simp]: "config (outputLog e s) = config s"
  by (simp add: outputLog_def Let_def)

lemma performanceMetrics_outputLog [simp]: "performanceMetrics (outputLog e s) = performanceMetrics s"
  by (simp add: outputLog_def Let_def)

lemma outputLog_dropped: "\<not> shouldLog (config s) (entry_level e) \<Longrightarrow> outputLog e s = s"
  by (simp add: outputLog_def)

lemma shouldLog_rank:
  "j < length levels \<Longrightarrow> level cfg = levels ! j \<Longrightarrow> i < length levels \<Longrightarrow>
   shouldLog cfg (levels ! i) = (enabled cfg \<and> i \<le> j)"
  using indexOf_nth[of levels i] indexOf_nth[of levels j]
  by (auto simp add: shouldLog_def Let_def levels_def)

lemma leveled_method_eq:
  "i < length levels \<Longrightarrow>
   (leveled_methods ! i) st c a m d x s =
     outputLog (createLogEntry st (config s) (levels ! i) c a m d x) s"
proof -
  assume "i < length levels"
  then have "i = 0 \<or> i = 1 \<or> i = 2 \<or> i = 3 \<or> i = 4" by (auto simp: levels_def)
  then show ?thesis
    by (auto simp: leveled_methods_def levels_def error_def warn_def info_def debug_def trace_def)
qed

lemma createLogEntry_logToConsole [simp]:
  "createLogEntry st (cfg\<lparr>logToConsole := b\<rparr>) l c a m d x = createLogEntry st cfg l c a m d x"
  by (simp add: createLogEntry_def)

lemma shouldLog_logToConsole [simp]:
  "shouldLog (cfg\<lparr>logToConsole := b\<rparr>) l = shouldLog cfg l"
  by (simp add: shouldLog_def)

lemma last_push_bounded: "last (push_bounded e b) = e"
proof (cases "length (b @ [e]) > maxBufferSize")
  case True
  then have "b \<noteq> []" by (auto simp add: maxBufferSize_def)
  then have "tl (b @ [e]) = tl b @ [e]" by simp
  with True show ?thesis by (simp add: push_bounded_def)
next
  case False
  then show ?thesis by (simp add: push_bounded_def)
qed

section \<open>Level filtering\<close>

text \<open>
  Claim C1. Let the configured level be the \<open>j\<close>-th of
  \<open>[error, warn, info, debug, trace]\<close>. The leveled method of rank \<open>i\<close> appends its entry
  to the buffer, where it is the last entry, if and only if the logger is enabled and
  \<open>i \<le> j\<close>; otherwise the buffer is unchanged. The flag \<open>logToConsole\<close> has no influence
  on the buffer. The example is \<open>level = warn\<close>: \<open>error\<close> and \<open>warn\<close> are retained, the
  other three are dropped.
\<close>

theorem leveled_call_retained_iff_rank:
  assumes "i < length levels" and "j < length levels" and "level (config s) = levels ! j"
  shows "logBuffer ((leveled_methods ! i) st c a m d x s) =
           (if enabled (config s) \<and> i \<le> j
            then push_bounded (createLogEntry st (config s) (levels ! i) c a m d x) (logBuffer s)
            else logBuffer s)
       \<and> (enabled (config s) \<and> i \<le> j \<longrightarrow>
            last (logBuffer ((leveled_methods ! i) st c a m d x s)) =
              createLogEntry st (config s) (levels ! i) c a m d x)
       \<and> logBuffer ((leveled_methods ! i) st c a m d x (s\<lparr>config := (config s)\<lparr>logToConsole := b\<rparr>\<rparr>)) =
           logBuffer ((leveled_methods ! i) st c a m d x s)"
proof -
  have f: "shouldLog (config s) (levels ! i) = (enabled (config s) \<and> i \<le> j)"
    using assms by (intro shouldLog_rank) simp_all
  have m: "(leveled_methods ! i) st c a m d x s' =
      outputLog (createLogEntry st (config s') (levels ! i) c a m d x) s'" for s'
    by (rule leveled_method_eq[OF assms(1)])
  show ?thesis
    by (simp add: m logBuffer_outputLog f last_push_bounded)
qed

theorem leveled_call_retained_iff_rank_witness:
  "logBuffer (error sample_stamp ''c'' ''a'' ''m'' JNull JUndefined (with_level ''warn'' sample_logger)) =
     [createLogEntry sample_stamp (config (with_level ''warn'' sample_logger)) ''error'' ''c'' ''a'' ''m'' JNull JUndefined]
   \<and> logBuffer (warn sample_stamp ''c'' ''a'' ''m'' JNull JUndefined (with_level ''warn'' sample_logger)) =
     [createLogEntry sample_stamp (config (with_level ''warn'' sample_logger)) ''warn'' ''c'' ''a'' ''m'' JNull JUndefined]
   \<and> logBuffer (info sample_stamp ''c'' ''a'' ''m'' JNull JUndefined (with_level ''warn'' sample_logger)) = []
   \<and> logBuffer (debug sample_stamp ''c'' ''a'' ''m'' JNull JUndefined (with_level ''warn'' sample_logger)) = []
   \<and> logBuffer (trace sample_stamp ''c'' ''a'' ''m'' JNull JUndefined (with_level ''warn'' sample_logger)) = []"
proof -
  let ?s = "with_level ''warn'' sample_logger"
  have j: "(1::nat) < length levels" "level (config ?s) = levels ! 1"
    by (simp_all add: levels_def with_level_def)
  have en: "enabled (config ?s)" "logBuffer ?s = []"
    by (simp_all add: with_level_def sample_logger_def default_config_def)
  have m: "leveled_methods ! 0 = error" "leveled_methods ! 1 = warn" "leveled_methods ! 2 = info"
    "leveled_methods ! 3 = debug" "leveled_methods ! 4 = trace"
    by (simp_all add: leveled_methods_def)
  have l: "levels ! 0 = ''error''" "levels ! 1 = ''warn''" "(0::nat) < length levels"
    "(2::nat) < length levels" "(3::nat) < length levels" "(4::nat) < length levels"
    by (simp_all add: levels_def)
  note t = leveled_call_retained_iff_rank[OF _ j, of _ sample_stamp "''c''" "''a''" "''m''" JNull JUndefined]
  show ?thesis
    using t[of 0] t[of 1] t[of 2] t[of 3] t[of 4] en m l
    by (simp add: push_bounded_def maxBufferSize_def)
qed

lemma indexOf_le_levels:
  "(indexOf levels ''error'' \<le> indexOf levels l) = (l \<in> {''error'', ''warn'', ''info'', ''debug'', ''trace''})"
  "(indexOf levels ''warn'' \<le> indexOf levels l) = (l \<in> {''warn'', ''info'', ''debug'', ''trace''})"
  "(indexOf levels ''info'' \<le> indexOf levels l) = (l \<in> {''info'', ''debug'', ''trace''})"
  "(indexOf levels ''debug'' \<le> indexOf levels l) = (l \<in> {''debug'', ''trace''})"
  "(indexOf levels ''trace'' \<le> indexOf levels l) = (l \<in> {''trace''})"
  by (auto simp add: levels_def Let_def)

lemma shouldLog_levels:
  "shouldLog cfg ''error'' = (enabled cfg \<and> level cfg \<in> {''error'', ''warn'', ''info'', ''debug'', ''trace''})"
  "shouldLog cfg ''warn'' = (enabled cfg \<and> level cfg \<in> {''warn'', ''info'', ''debug'', ''trace''})"
  "shouldLog cfg ''info'' = (enabled cfg \<and> level cfg \<in> {''info'', ''debug'', ''trace''})"
  "shouldLog cfg ''debug'' = (enabled cfg \<and> level cfg \<in> {''debug'', ''trace''})"
  "shouldLog cfg ''trace'' = (enabled cfg \<and> level cfg \<in> {''trace''})"
  by (simp_all add: shouldLog_def Let_def indexOf_le_levels)

lemma length_push_bounded:
  "length b \<le> maxBufferSize \<Longrightarrow> length (push_bounded e b) \<le> maxBufferSize"
  by (simp add: push_bounded_def)

lemma outputLog_bounded:
  "length (logBuffer s) \<le> maxBufferSize \<Longrightarrow> length (logBuffer (outputLog e s)) \<le> maxBufferSize"
  by (simp add: logBuffer_outputLog length_push_bounded)

lemma leveled_bounded:
  assumes "length (logBuffer s) \<le> maxBufferSize"
  shows "length (logBuffer (error st c a m d x s)) \<le> maxBufferSize"
    and "length (logBuffer (warn st c a m d x s)) \<le> maxBufferSize"
    and "length (logBuffer (info st c a m d x s)) \<le> maxBufferSize"
    and "length (logBuffer (debug st c a m d x s)) \<le> maxBufferSize"
    and "length (logBuffer (trace st c a m d x s)) \<le> maxBufferSize"
    and "length (logBuffer (log st c a m d x s)) \<le> maxBufferSize"
  using assms
  by (simp_all add: error_def warn_def info_def debug_def trace_def log_def outputLog_bounded)

lemma startTimer_bounded:
  "length (logBuffer s) \<le> maxBufferSize \<Longrightarrow>
   length (logBuffer (snd (startTimer t r t0 st oper meta s))) \<le> maxBufferSize"
  by (simp add: startTimer_def Let_def leveled_bounded)

lemma config_leveled [simp]:
  "config (error st c a m d x s) = config s" "config (warn st c a m d x s) = config s"
  "config (info st c a m d x s) = config s" "config (debug st c a m d x s) = config s"
  "config (trace st c a m d x s) = config s" "config (log st c a m d x s) = config s"
  by (simp_all add: error_def warn_def info_def debug_def trace_def log_def)

lemma performanceMetrics_leveled [simp]:
  "performanceMetrics (error st c a m d x s) = performanceMetrics s"
  "performanceMetrics (warn st c a m d x s) = performanceMetrics s"
  "performanceMetrics (info st c a m d x s) = performanceMetrics s"
  "performanceMetrics (debug st c a m d x s) = performanceMetrics s"
  "performanceMetrics (trace st c a m d x s) = performanceMetrics s"
  "performanceMetrics (log st c a m d x s) = performanceMetrics s"
  by (simp_all add: error_def warn_def info_def debug_def trace_def log_def)

lemma endTimer_bounded:
  "length (logBuffer s) \<le> maxBufferSize \<Longrightarrow>
   length (logBuffer (endTimer t st tid extra s)) \<le> maxBufferSize"
  by (simp add: endTimer_def Let_def leveled_bounded split: option.splits)

lemma perform_bounded:
  "length (logBuffer s) \<le> maxBufferSize \<Longrightarrow> length (logBuffer (perform op s)) \<le> maxBufferSize"
  by (cases op)
     (simp_all add: leveled_bounded startTimer_bounded endTimer_bounded trackError_def
        trackAPIRequest_def trackAPIResponse_def trackStateChange_def updateConfig_def
        clearLogs_def Let_def)

lemma fold_perform_bounded:
  "length (logBuffer s) \<le> maxBufferSize \<Longrightarrow>
   length (logBuffer (fold perform ops s)) \<le> maxBufferSize"
  by (induction ops arbitrary: s) (simp_all add: perform_bounded)

lemma new_DebugLogger_bounded:
  "length (logBuffer (new_DebugLogger h isoNow st cfg)) \<le> maxBufferSize"
  by (simp add: new_DebugLogger_def initializeDebugMode_def Let_def leveled_bounded)

section \<open>The bounded buffer\<close>

text \<open>
  Claim C2. After construction and after any sequence of public calls the buffer holds at
  most \<open>maxBufferSize\<close> entries. Every entry arrives through \<open>outputLog\<close>: an accepted
  entry that arrives when the buffer is full evicts exactly the oldest entry, so that the
  buffer \<open>oldest # rest\<close> becomes \<open>rest @ [e]\<close>; below the bound nothing is evicted.
\<close>

theorem buffer_bounded_fifo:
  "length (logBuffer (fold perform ops (new_DebugLogger h isoNow st cfg))) \<le> maxBufferSize
   \<and> (shouldLog (config s) (entry_level e) \<and> length (logBuffer s) = maxBufferSize \<longrightarrow>
        logBuffer s = hd (logBuffer s) # tl (logBuffer s)
        \<and> logBuffer (outputLog e s) = tl (logBuffer s) @ [e])
   \<and> (shouldLog (config s) (entry_level e) \<and> length (logBuffer s) < maxBufferSize \<longrightarrow>
        logBuffer (outputLog e s) = logBuffer s @ [e])"
proof (intro conjI impI)
  show "length (logBuffer (fold perform ops (new_DebugLogger h isoNow st cfg))) \<le> maxBufferSize"
    by (rule fold_perform_bounded) (rule new_DebugLogger_bounded)
next
  assume a: "shouldLog (config s) (entry_level e) \<and> length (logBuffer s) = maxBufferSize"
  then have ne: "logBuffer s \<noteq> []" by (auto simp: maxBufferSize_def)
  then show "logBuffer s = hd (logBuffer s) # tl (logBuffer s)" by simp
  from a ne show "logBuffer (outputLog e s) = tl (logBuffer s) @ [e]"
    by (simp add: logBuffer_outputLog push_bounded_def)
next
  assume "shouldLog (config s) (entry_level e) \<and> length (logBuffer s) < maxBufferSize"
  then show "logBuffer (outputLog e s) = logBuffer s @ [e]"
    by (simp add: logBuffer_outputLog push_bounded_def)
qed

theorem buffer_bounded_fifo_witness:
  "length (logBuffer (fold perform [Info sample_stamp ''app'' ''tick'' ''m'' JUndefined JUndefined, ClearLogs sample_stamp]
      (new_DebugLogger node_host ''2024-01-01T00:00:00.000Z'' sample_stamp no_partial))) \<le> maxBufferSize
   \<and> length (logBuffer full_logger) = maxBufferSize
   \<and> shouldLog (config full_logger) (entry_level (sample_entry ''new''))
   \<and> logBuffer (outputLog (sample_entry ''new'') full_logger) =
       replicate 999 (sample_entry ''old'') @ [sample_entry ''new'']
   \<and> logBuffer (outputLog (sample_entry ''new'') sample_logger) = [sample_entry ''new'']"
proof -
  have f: "length (logBuffer full_logger) = maxBufferSize"
    by (simp add: full_logger_def maxBufferSize_def)
  have a: "shouldLog (config full_logger) (entry_level (sample_entry ''new''))"
    by (simp add: full_logger_def sample_logger_def sample_entry_def shouldLog_levels default_config_def)
  have b: "shouldLog (config sample_logger) (entry_level (sample_entry ''new''))"
    by (simp add: sample_logger_def sample_entry_def shouldLog_levels default_config_def)
  have c: "length (logBuffer sample_logger) < maxBufferSize"
    by (simp add: sample_logger_def maxBufferSize_def)
  have t: "tl (logBuffer full_logger) = replicate 999 (sample_entry ''old'')"
    by (simp add: full_logger_def)
  have u: "logBuffer sample_logger = []" by (simp add: sample_logger_def)
  show ?thesis
    using buffer_bounded_fifo[of "[Info sample_stamp ''app'' ''tick'' ''m'' JUndefined JUndefined, ClearLogs sample_stamp]"
             node_host "''2024-01-01T00:00:00.000Z''" sample_stamp no_partial full_logger "sample_entry ''new''"]
          buffer_bounded_fifo[of "[]" node_host "[]" sample_stamp no_partial sample_logger "sample_entry ''new''"]
          f a b c t u
    by simp
qed

section \<open>The disabled logger\<close>

text \<open>
  Claim C7. With \<open>enabled = false\<close> every leveled call, \<open>log\<close> and both timer calls
  return the logger as it was: buffer, console output, timer mapping and configuration are
  the same, and \<open>startTimer\<close> returns the empty identifier.
\<close>

theorem disabled_is_noop:
  assumes "\<not> enabled (config s)"
  shows "error st c a m d x s = s \<and> warn st c a m d x s = s \<and> info st c a m d x s = s
       \<and> debug st c a m d x s = s \<and> trace st c a m d x s = s \<and> log st c a m d x s = s
       \<and> startTimer idNow rnd startNow st oper meta s = ([], s)
       \<and> endTimer endNow st timerId extra s = s"
  using assms
  by (simp add: error_def warn_def info_def debug_def trace_def log_def startTimer_def
        endTimer_def outputLog_dropped shouldLog_def)

theorem disabled_is_noop_witness:
  "\<not> enabled (config disabled_logger)
   \<and> error sample_stamp ''c'' ''a'' ''m'' JNull JNull disabled_logger = disabled_logger
   \<and> warn sample_stamp ''c'' ''a'' ''m'' JNull JNull disabled_logger = disabled_logger
   \<and> info sample_stamp ''c'' ''a'' ''m'' JNull JNull disabled_logger = disabled_logger
   \<and> debug sample_stamp ''c'' ''a'' ''m'' JNull JNull disabled_logger = disabled_logger
   \<and> trace sample_stamp ''c'' ''a'' ''m'' JNull JNull disabled_logger = disabled_logger
   \<and> log sample_stamp ''c'' ''a'' ''m'' JNull JNull disabled_logger = disabled_logger
   \<and> startTimer 5 ''abc'' 5 sample_stamp ''op'' JUndefined disabled_logger = ([], disabled_logger)
   \<and> endTimer 9 sample_stamp ''op_1_x'' JUndefined disabled_logger = disabled_logger"
proof -
  have h: "\<not> enabled (config disabled_logger)"
    by (simp add: disabled_logger_def sample_logger_def default_config_def)
  show ?thesis
    using h disabled_is_noop[OF h, of sample_stamp "''c''" "''a''" "''m''" JNull JNull 5 "''abc''" 5 "''op''" JUndefined 9 "''op_1_x''" JUndefined]
    by simp
qed

section \<open>An unrecognised level\<close>

lemma shouldLog_unrecognised:
  "level cfg \<notin> set levels \<Longrightarrow> lvl \<in> set levels \<Longrightarrow> \<not> shouldLog cfg lvl"
proof -
  assume a: "level cfg \<notin> set levels" and b: "lvl \<in> set levels"
  have "indexOf levels (level cfg) = - 1" using a by (rule indexOf_notin)
  moreover have "0 \<le> indexOf levels lvl"
    using b by (auto simp: levels_def)
  ultimately show ?thesis by (simp add: shouldLog_def Let_def)
qed

lemma env_level_unvalidated:
  assumes "isNodeEnv h" and "DIANOIA_DEBUG h \<noteq> Some ''false''"
    and "DIANOIA_DEBUG_LEVEL h = Some l" and "l \<noteq> []" and "getStorage h = None"
  shows "level (config (new_DebugLogger h isoNow st cfg)) = l"
    and "enabled (config (new_DebugLogger h isoNow st cfg)) = enabled (merge_config default_config cfg)"
  using assms by (simp_all add: new_DebugLogger_def initializeDebugMode_def Let_def)

lemma storage_level_validated:
  assumes "\<not> isNodeEnv h" and "getStorage h = Some storage"
  shows "level (config (new_DebugLogger h isoNow st cfg)) \<in> set levels
       \<or> level (config (new_DebugLogger h isoNow st cfg)) = level (merge_config default_config cfg)"
  using assms by (auto simp add: new_DebugLogger_def initializeDebugMode_def Let_def split: option.splits)

text \<open>
  Claim C10. If the configured level is none of the five recognised levels, then
  \<open>shouldLog\<close> is false for each of the five entry levels and every leveled call returns
  the logger as it was: no buffer entry and no console output, whatever \<open>enabled\<close> is.
  Such a level is reached through the environment variable, which the constructor assigns
  unchecked (\<open>env_level_unvalidated\<close>), while a level from local storage is checked
  (\<open>storage_level_validated\<close>). The example is \<^verbatim>\<open>DIANOIA_DEBUG_LEVEL=verbose\<close>.
\<close>

theorem unrecognised_level_drops_every_call:
  assumes "level (config s) \<notin> set levels" and "i < length levels"
  shows "\<not> shouldLog (config s) (levels ! i) \<and> (leveled_methods ! i) st c a m d x s = s"
proof -
  have n: "\<not> shouldLog (config s) (levels ! i)"
    using assms by (intro shouldLog_unrecognised) simp_all
  then have "outputLog (createLogEntry st (config s) (levels ! i) c a m d x) s = s"
    by (simp add: outputLog_dropped)
  with n assms(2) show ?thesis by (simp add: leveled_method_eq)
qed

theorem unrecognised_level_drops_every_call_witness:
  "enabled (config verbose_logger) \<and> level (config verbose_logger) = ''verbose''
   \<and> logBuffer verbose_logger = [] \<and> console verbose_logger = []
   \<and> \<not> shouldLog (config verbose_logger) ''error''
   \<and> error sample_stamp ''c'' ''a'' ''m'' JNull JNull verbose_logger = verbose_logger
   \<and> trace sample_stamp ''c'' ''a'' ''m'' JNull JNull verbose_logger = verbose_logger"
proof -
  have h: "isNodeEnv verbose_host" "DIANOIA_DEBUG verbose_host \<noteq> Some ''false''"
    "DIANOIA_DEBUG_LEVEL verbose_host = Some ''verbose''" "''verbose'' \<noteq> []"
    "getStorage verbose_host = None"
    by (simp_all add: verbose_host_def isNodeEnv_def getStorage_def isBrowserEnv_def)
  have l: "level (config verbose_logger) = ''verbose''"
    unfolding verbose_logger_def by (rule env_level_unvalidated(1)[OF h])
  have e: "enabled (config verbose_logger)"
    unfolding verbose_logger_def env_level_unvalidated(2)[OF h]
    by (simp add: merge_config_def default_config_def no_partial_def)
  have n: "level (config verbose_logger) \<notin> set levels"
    by (simp add: l levels_def)
  have i: "(0::nat) < length levels" "(4::nat) < length levels" "levels ! 0 = ''error''"
    "leveled_methods ! 0 = error" "leveled_methods ! 4 = trace"
    by (simp_all add: levels_def leveled_methods_def)
  note t = unrecognised_level_drops_every_call[OF n, of _ sample_stamp "''c''" "''a''" "''m''" JNull JNull]
  have init: "verbose_logger = \<lparr> config = config verbose_logger, performanceMetrics = [], logBuffer = [], console = [] \<rparr>"
    by (simp add: verbose_logger_def new_DebugLogger_def initializeDebugMode_def Let_def h log_def
          debug_def outputLog_dropped shouldLog_levels)
  have b: "logBuffer verbose_logger = []" "console verbose_logger = []"
    by (subst init, simp)+
  show ?thesis using t[OF i(1)] t[OF i(2)] l e i b by simp
qed

section \<open>Clearing and reconfiguring\<close>

lemma logBuffer_leveled:
  "logBuffer (error st c a m d x s) =
     (if shouldLog (config s) ''error''
      then push_bounded (createLogEntry st (config s) ''error'' c a m d x) (logBuffer s)
      else logBuffer s)"
  "logBuffer (warn st c a m d x s) =
     (if shouldLog (config s) ''warn''
      then push_bounded (createLogEntry st (config s) ''warn'' c a m d x) (logBuffer s)
      else logBuffer s)"
  "logBuffer (info st c a m d x s) =
     (if shouldLog (config s) ''info''
      then push_bounded (createLogEntry st (config s) ''info'' c a m d x) (logBuffer s)
      else logBuffer s)"
  "logBuffer (debug st c a m d x s) =
     (if shouldLog (config s) ''debug''
      then push_bounded (createLogEntry st (config s) ''debug'' c a m d x) (logBuffer s)
      else logBuffer s)"
  "logBuffer (trace st c a m d x s) =
     (if shouldLog (config s) ''trace''
      then push_bounded (createLogEntry st (config s) ''trace'' c a m d x) (logBuffer s)
      else logBuffer s)"
  by (simp_all add: error_def warn_def info_def debug_def trace_def logBuffer_outputLog)

lemma leveled_dropped:
  "\<not> shouldLog (config s) ''error'' \<Longrightarrow> error st c a m d x s = s"
  "\<not> shouldLog (config s) ''warn'' \<Longrightarrow> warn st c a m d x s = s"
  "\<not> shouldLog (config s) ''info'' \<Longrightarrow> info st c a m d x s = s"
  "\<not> shouldLog (config s) ''debug'' \<Longrightarrow> debug st c a m d x s = s"
  "\<not> shouldLog (config s) ''trace'' \<Longrightarrow> trace st c a m d x s = s"
  by (simp_all add: error_def warn_def info_def debug_def trace_def outputLog_dropped)

text \<open>
  Claim C5, as stated, fails: on an enabled logger whose level is \<open>warn\<close> the buffer is
  empty after \<open>clearLogs\<close>, because the entry that notes the clear is an \<open>info\<close> entry
  and passes through the level filter like any other.
\<close>

theorem clearLogs_leaves_buffer_empty_counterexample:
  "enabled (config warn_logger) \<and> logBuffer warn_logger \<noteq> []
   \<and> logBuffer (clearLogs sample_stamp warn_logger) = []"
  by (simp add: warn_logger_def with_level_def sample_logger_def default_config_def
        clearLogs_def logBuffer_leveled shouldLog_levels)

text \<open>
  Claim C5, amended. \<open>clearLogs\<close> empties the buffer and then logs one \<open>info\<close> entry
  noting the clear. After the call the buffer holds exactly that entry when the logger is
  enabled and the configured level is \<open>info\<close>, \<open>debug\<close> or \<open>trace\<close>; otherwise it is
  empty. Configuration and timers are untouched.
\<close>

theorem clearLogs_buffer:
  "logBuffer (clearLogs st s) =
     (if enabled (config s) \<and> level (config s) \<in> {''info'', ''debug'', ''trace''}
      then [createLogEntry st (config s) ''info'' ''system'' ''logs_cleared''
              ''Debug logs cleared'' JUndefined JUndefined]
      else [])
   \<and> config (clearLogs st s) = config s
   \<and> performanceMetrics (clearLogs st s) = performanceMetrics s"
proof -
  have "logBuffer (clearLogs st s) =
      (if shouldLog (config s) ''info''
       then push_bounded (createLogEntry st (config s) ''info'' ''system'' ''logs_cleared''
              ''Debug logs cleared'' JUndefined JUndefined) []
       else [])"
    by (simp add: clearLogs_def logBuffer_leveled)
  moreover have "push_bounded e [] = [e]" for e
    by (simp add: push_bounded_def maxBufferSize_def)
  ultimately show ?thesis
    by (simp add: shouldLog_levels clearLogs_def)
qed

text \<open>
  Claim C4, as stated, fails: \<^verbatim>\<open>updateConfig({level: 'error'})\<close> on the default logger
  leaves no entry in the buffer and prints nothing. The configuration is replaced before
  the \<open>info\<close> entry is logged, so the entry is filtered by the new configuration.
\<close>

theorem updateConfig_entry_filtered_counterexample:
  "logBuffer sample_logger = [] \<and> console sample_logger = []
   \<and> enabled (config (updateConfig sample_stamp level_error sample_logger))
   \<and> logBuffer (updateConfig sample_stamp level_error sample_logger) = []
   \<and> console (updateConfig sample_stamp level_error sample_logger) = []"
proof -
  have c: "config (sample_logger\<lparr>config := merge_config (config sample_logger) level_error\<rparr>)
         = default_config\<lparr>level := ''error''\<rparr>"
    by (simp add: sample_logger_def merge_config_def level_error_def no_partial_def default_config_def)
  have "updateConfig sample_stamp level_error sample_logger
      = sample_logger\<lparr>config := merge_config (config sample_logger) level_error\<rparr>"
    unfolding updateConfig_def Let_def
    by (rule leveled_dropped) (simp add: c shouldLog_levels)
  then show ?thesis
    by (simp add: sample_logger_def merge_config_def level_error_def no_partial_def default_config_def)
qed

text \<open>
  Claim C4, amended. \<open>updateConfig\<close> merges the partial configuration over the current
  one, field by field, and \<open>getConfig\<close> returns the merged configuration right after
  the call (a record is a value: the result shares nothing with the logger). The \<open>info\<close>
  entry recording the old and the new configuration is logged under the new
  configuration: it is retained exactly when the new configuration is enabled with level
  \<open>info\<close>, \<open>debug\<close> or \<open>trace\<close>. The new configuration holds for every later call:
  after an update to level \<open>error\<close> the calls \<open>warn\<close>, \<open>info\<close>, \<open>debug\<close> and
  \<open>trace\<close> change nothing, and \<open>error\<close> appends its entry when the logger is enabled.
\<close>

theorem updateConfig_effect:
  "config (updateConfig st p s) = merge_config (config s) p
   \<and> getConfig (updateConfig st p s) = merge_config (config s) p
   \<and> performanceMetrics (updateConfig st p s) = performanceMetrics s
   \<and> logBuffer (updateConfig st p s) =
       (if enabled (merge_config (config s) p)
           \<and> level (merge_config (config s) p) \<in> {''info'', ''debug'', ''trace''}
        then push_bounded
               (createLogEntry st (merge_config (config s) p) ''info'' ''system''
                  ''config_update'' ''Debug configuration updated''
                  (object_literal [(''oldConfig'', config_to_js (config s)),
                                   (''newConfig'', config_to_js (merge_config (config s) p))])
                  JUndefined)
               (logBuffer s)
        else logBuffer s)
   \<and> (p_level p = Some ''error'' \<longrightarrow>
        warn st' c a m d x (updateConfig st p s) = updateConfig st p s
        \<and> info st' c a m d x (updateConfig st p s) = updateConfig st p s
        \<and> debug st' c a m d x (updateConfig st p s) = updateConfig st p s
        \<and> trace st' c a m d x (updateConfig st p s) = updateConfig st p s
        \<and> logBuffer (error st' c a m d x (updateConfig st p s)) =
            (if enabled (merge_config (config s) p)
             then push_bounded
                    (createLogEntry st' (merge_config (config s) p) ''error'' c a m d x)
                    (logBuffer (updateConfig st p s))
             else logBuffer (updateConfig st p s)))"
proof -
  have cfg: "config (updateConfig st p s) = merge_config (config s) p"
    by (simp add: updateConfig_def Let_def)
  have pm: "performanceMetrics (updateConfig st p s) = performanceMetrics s"
    by (simp add: updateConfig_def Let_def)
  have buf: "logBuffer (updateConfig st p s) =
       (if enabled (merge_config (config s) p)
           \<and> level (merge_config (config s) p) \<in> {''info'', ''debug'', ''trace''}
        then push_bounded
               (createLogEntry st (merge_config (config s) p) ''info'' ''system''
                  ''config_update'' ''Debug configuration updated''
                  (object_literal [(''oldConfig'', config_to_js (config s)),
                                   (''newConfig'', config_to_js (merge_config (config s) p))])
                  JUndefined)
               (logBuffer s)
        else logBuffer s)"
    unfolding shouldLog_levels(3)[symmetric]
    by (simp add: updateConfig_def Let_def logBuffer_leveled)
  have later: "warn st' c a m d x (updateConfig st p s) = updateConfig st p s
        \<and> info st' c a m d x (updateConfig st p s) = updateConfig st p s
        \<and> debug st' c a m d x (updateConfig st p s) = updateConfig st p s
        \<and> trace st' c a m d x (updateConfig st p s) = updateConfig st p s
        \<and> logBuffer (error st' c a m d x (updateConfig st p s)) =
            (if enabled (merge_config (config s) p)
             then push_bounded
                    (createLogEntry st' (merge_config (config s) p) ''error'' c a m d x)
                    (logBuffer (updateConfig st p s))
             else logBuffer (updateConfig st p s))"
    if that: "p_level p = Some ''error''"
  proof -
    from that have l: "level (config (updateConfig st p s)) = ''error''"
      by (simp add: cfg merge_config_def)
    show ?thesis
      by (simp add: leveled_dropped logBuffer_leveled shouldLog_levels l) (simp add: cfg)
  qed
  from later have later': "p_level p = Some ''error'' \<longrightarrow>
        warn st' c a m d x (updateConfig st p s) = updateConfig st p s
        \<and> info st' c a m d x (updateConfig st p s) = updateConfig st p s
        \<and> debug st' c a m d x (updateConfig st p s) = updateConfig st p s
        \<and> trace st' c a m d x (updateConfig st p s) = updateConfig st p s
        \<and> logBuffer (error st' c a m d x (updateConfig st p s)) =
            (if enabled (merge_config (config s) p)
             then push_bounded
                    (createLogEntry st' (merge_config (config s) p) ''error'' c a m d x)
                    (logBuffer (updateConfig st p s))
             else logBuffer (updateConfig st p s))"
    by (rule impI)
  show ?thesis
    unfolding getConfig_def
    by (intro conjI; (rule cfg | rule pm | rule buf | rule later'))
qed

theorem updateConfig_effect_witness:
  "p_level level_error = Some ''error''
   \<and> level (getConfig (updateConfig sample_stamp level_error info_logger)) = ''error''
   \<and> logBuffer (updateConfig sample_stamp level_error info_logger) = []
   \<and> warn sample_stamp ''c'' ''a'' ''m'' JNull JNull (updateConfig sample_stamp level_error info_logger)
       = updateConfig sample_stamp level_error info_logger
   \<and> logBuffer (error sample_stamp ''c'' ''a'' ''m'' JNull JNull
        (updateConfig sample_stamp level_error info_logger))
       = [createLogEntry sample_stamp (default_config\<lparr>level := ''error''\<rparr>) ''error''
            ''c'' ''a'' ''m'' JNull JNull]"
proof -
  have p: "p_level level_error = Some ''error''"
    by (simp add: level_error_def)
  have m: "merge_config (config info_logger) level_error = default_config\<lparr>level := ''error''\<rparr>"
    by (simp add: info_logger_def with_level_def sample_logger_def merge_config_def
          level_error_def no_partial_def default_config_def)
  have e: "enabled (default_config\<lparr>level := ''error''\<rparr>)"
      "level (default_config\<lparr>level := ''error''\<rparr>) = ''error''"
      "logBuffer info_logger = []"
    by (simp_all add: default_config_def info_logger_def with_level_def sample_logger_def)
  show ?thesis
    using updateConfig_effect[of sample_stamp level_error info_logger sample_stamp
            "''c''" "''a''" "''m''" JNull JNull] p m e
    by (simp add: push_bounded_def maxBufferSize_def)
qed

section \<open>State changes\<close>

lemma map_of_fold_set_prop:
  "map_of (fold (\<lambda>key changes. if P key then set_prop key (f key) changes else changes) ks acc) k =
     (if k \<in> set ks \<and> P k then Some (f k) else map_of acc k)"
  by (induction ks arbitrary: acc) (auto simp add: update_conv')

lemma distinct_fold_set_prop:
  "distinct (map fst acc) \<Longrightarrow>
   distinct (map fst (fold (\<lambda>key changes. if P key then set_prop key (f key) changes else changes) ks acc))"
  by (induction ks arbitrary: acc) (auto simp add: distinct_update)

lemma keys_fold_set_prop:
  "fst ` set (fold (\<lambda>key changes. if P key then set_prop key (f key) changes else changes) ks acc) =
     {k \<in> set ks. P k} \<union> fst ` set acc"
  unfolding dom_map_of_conv_image_fst[symmetric]
  by (auto simp add: dom_def map_of_fold_set_prop split: if_splits)

lemma set_new_Set_aux:
  "set (fold (\<lambda>x acc. if x \<in> set acc then acc else acc @ [x]) xs acc) = set xs \<union> set acc"
  by (induction xs arbitrary: acc) auto

lemma distinct_new_Set_aux:
  "distinct acc \<Longrightarrow> distinct (fold (\<lambda>x acc. if x \<in> set acc then acc else acc @ [x]) xs acc)"
  by (induction xs arbitrary: acc) auto

lemma set_new_Set [simp]: "set (new_Set xs) = set xs"
  by (simp add: new_Set_def set_new_Set_aux)

lemma distinct_new_Set [simp]: "distinct (new_Set xs)"
  by (simp add: new_Set_def distinct_new_Set_aux)

lemma getStateChanges_falsy:
  "\<not> truthy oldState \<or> \<not> truthy newState \<Longrightarrow> getStateChanges oldState newState = []"
  by (auto simp add: getStateChanges_def)

lemma getStateChanges_truthy:
  "truthy oldState \<Longrightarrow> truthy newState \<Longrightarrow>
   getStateChanges oldState newState =
     fold (\<lambda>key changes.
             if \<not> strict_eq (get_prop oldState key) (get_prop newState key) \<and> key \<noteq> ''__proto__''
             then set_prop key \<lparr> change_from = get_prop oldState key,
                                 change_to = get_prop newState key \<rparr> changes
             else changes)
       (new_Set (object_keys oldState @ object_keys newState)) []"
  unfolding getStateChanges_def by (simp add: fold_assign)

lemma map_of_getStateChanges:
  "truthy oldState \<Longrightarrow> truthy newState \<Longrightarrow>
   map_of (getStateChanges oldState newState) k =
     (if k \<in> set (object_keys oldState) \<union> set (object_keys newState) \<and> k \<noteq> ''__proto__''
         \<and> \<not> strict_eq (get_prop oldState k) (get_prop newState k)
      then Some \<lparr> change_from = get_prop oldState k, change_to = get_prop newState k \<rparr>
      else None)"
  by (auto simp add: getStateChanges_truthy map_of_fold_set_prop)

lemma distinct_getStateChanges: "distinct (map fst (getStateChanges oldState newState))"
proof (cases "truthy oldState \<and> truthy newState")
  case True
  then show ?thesis by (simp add: getStateChanges_truthy distinct_fold_set_prop)
next
  case False
  then show ?thesis by (simp add: getStateChanges_def)
qed

lemma keys_getStateChanges:
  "truthy oldState \<Longrightarrow> truthy newState \<Longrightarrow>
   set (map fst (getStateChanges oldState newState)) =
     {k \<in> set (object_keys oldState) \<union> set (object_keys newState).
        k \<noteq> ''__proto__'' \<and> \<not> strict_eq (get_prop oldState k) (get_prop newState k)}"
  by (auto simp add: getStateChanges_truthy keys_fold_set_prop)

lemma keys_changes_to_js: "set (object_keys (changes_to_js cs)) = set (map fst cs)"
  by (force simp add: changes_to_js_def)

lemma distinct_keys_changes_to_js:
  "distinct (object_keys (changes_to_js cs)) = distinct (map fst cs)"
  by (simp add: changes_to_js_def case_prod_beta comp_def)

lemma own_property_changes_to_js:
  "own_property (changes_to_js cs) k =
     map_option (\<lambda>c. JObj 0 [(''from'', change_from c), (''to'', change_to c)]) (map_of cs k)"
  unfolding changes_to_js_def by (induction cs) auto

lemma inherited_not_object: "inherited K k \<noteq> JObj a kvs"
  by (simp add: inherited_def prototype_member_def)

lemma get_prop_object:
  "get_prop (JObj p kvs) k = JObj a xs \<Longrightarrow> map_of kvs k = Some (JObj a xs)"
  by (simp add: inherited_not_object split: option.splits)

lemma trackStateChange_eq:
  "trackStateChange st c act oldState newState ctx s =
     debug st ''state'' ''change'' (c @ '' state changed via '' @ act)
       (JObj 0 [(''oldState'', oldState), (''newState'', newState),
                (''changes'', changes_to_js (getStateChanges oldState newState))])
       ctx s"
  by (simp add: trackStateChange_def object_literal_def)

text \<open>
  Claim C6, as stated, fails in two ways. The report is the data of a \<open>debug\<close> entry
  and passes through the level filter: with level \<open>info\<close> the example of the
  specification reports nothing. And a state that owns the key \<^verbatim>\<open>__proto__\<close> (as an
  object read by \<^verbatim>\<open>JSON.parse\<close> can) differs from a state without it under that key,
  yet the key is never reported: the assignment that should record it runs the setter of
  \<^verbatim>\<open>Object.prototype\<close> instead of defining a property.
\<close>

theorem state_changes_not_reported_counterexample:
  "enabled (config info_logger)
   \<and> logBuffer (trackStateChange sample_stamp ''store'' ''set'' old_state new_state JUndefined info_logger) = []
   \<and> console (trackStateChange sample_stamp ''store'' ''set'' old_state new_state JUndefined info_logger) = []
   \<and> object_keys proto_state = [''__proto__'']
   \<and> get_prop proto_state ''__proto__'' = JNum 1
   \<and> get_prop (JObj 2 []) ''__proto__'' = JProto KObject
   \<and> \<not> strict_eq (get_prop proto_state ''__proto__'') (get_prop (JObj 2 []) ''__proto__'')
   \<and> changes_to_js (getStateChanges proto_state (JObj 2 [])) = JObj 0 []"
proof -
  have "\<not> shouldLog (config info_logger) ''debug''"
    by (simp add: shouldLog_levels info_logger_def with_level_def)
  then have "trackStateChange sample_stamp ''store'' ''set'' old_state new_state JUndefined info_logger
      = info_logger"
    unfolding trackStateChange_eq by (rule leveled_dropped)
  moreover have "array_index ''__proto__'' = None"
    by (simp add: array_index_not_digit is_digit_def)
  then have "object_keys proto_state = [''__proto__'']"
    by (simp add: proto_state_def ordered_no_index)
  moreover from this have "getStateChanges proto_state (JObj 2 []) = []"
    by (simp add: getStateChanges_def new_Set_def assign_def)
  ultimately show ?thesis
    by (simp add: info_logger_def with_level_def sample_logger_def default_config_def
          proto_state_def inherited_def changes_to_js_def)
qed

text \<open>
  Claim C6, amended. For two state objects, the object logged under the key \<open>changes\<close>
  owns exactly the keys of the union of the two key sets, other than \<^verbatim>\<open>__proto__\<close>,
  under which \<^verbatim>\<open>oldState[key] !== newState[key]\<close>, each once and mapped to
  \<open>{from, to}\<close> with the two values that were read; the reads follow the prototype
  chain, so a key that only one state owns is compared with what \<^verbatim>\<open>Object.prototype\<close>
  holds under it (\<^verbatim>\<open>undefined\<close> for most keys). Two nested objects are compared by
  identity only: they are reported if and only if they are different objects, whatever
  they contain. The report is the data of the \<open>debug\<close> entry of \<open>trackStateChange\<close>,
  which is retained exactly when the logger is enabled with level \<open>debug\<close> or
  \<open>trace\<close>.
\<close>

theorem state_changes_exact:
  "own_property (changes_to_js (getStateChanges (JObj p old) (JObj q new))) k =
     (if k \<in> set (map fst old) \<union> set (map fst new) \<and> k \<noteq> ''__proto__''
         \<and> \<not> strict_eq (get_prop (JObj p old) k) (get_prop (JObj q new) k)
      then Some (JObj 0 [(''from'', get_prop (JObj p old) k), (''to'', get_prop (JObj q new) k)])
      else None)
   \<and> set (object_keys (changes_to_js (getStateChanges (JObj p old) (JObj q new)))) =
       {k \<in> set (map fst old) \<union> set (map fst new).
          k \<noteq> ''__proto__'' \<and> \<not> strict_eq (get_prop (JObj p old) k) (get_prop (JObj q new) k)}
   \<and> distinct (object_keys (changes_to_js (getStateChanges (JObj p old) (JObj q new))))
   \<and> (get_prop (JObj p old) k = JObj a xs \<and> get_prop (JObj q new) k = JObj b ys
        \<and> k \<noteq> ''__proto__'' \<longrightarrow>
        (k \<in> set (object_keys (changes_to_js (getStateChanges (JObj p old) (JObj q new))))) = (a \<noteq> b))
   \<and> logBuffer (trackStateChange st c act (JObj p old) (JObj q new) ctx s) =
       (if enabled (config s) \<and> level (config s) \<in> {''debug'', ''trace''}
        then push_bounded
               (createLogEntry st (config s) ''debug'' ''state'' ''change''
                  (c @ '' state changed via '' @ act)
                  (JObj 0 [(''oldState'', JObj p old), (''newState'', JObj q new),
                           (''changes'', changes_to_js (getStateChanges (JObj p old) (JObj q new)))])
                  ctx)
               (logBuffer s)
        else logBuffer s)"
proof (intro conjI impI)
  show "own_property (changes_to_js (getStateChanges (JObj p old) (JObj q new))) k =
     (if k \<in> set (map fst old) \<union> set (map fst new) \<and> k \<noteq> ''__proto__''
         \<and> \<not> strict_eq (get_prop (JObj p old) k) (get_prop (JObj q new) k)
      then Some (JObj 0 [(''from'', get_prop (JObj p old) k), (''to'', get_prop (JObj q new) k)])
      else None)"
    unfolding own_property_changes_to_js by (simp add: map_of_getStateChanges)
  show keys: "set (object_keys (changes_to_js (getStateChanges (JObj p old) (JObj q new)))) =
       {k \<in> set (map fst old) \<union> set (map fst new).
          k \<noteq> ''__proto__'' \<and> \<not> strict_eq (get_prop (JObj p old) k) (get_prop (JObj q new) k)}"
    unfolding keys_changes_to_js
    using keys_getStateChanges[of "JObj p old" "JObj q new"] by simp
  show "distinct (object_keys (changes_to_js (getStateChanges (JObj p old) (JObj q new))))"
    by (simp add: distinct_keys_changes_to_js distinct_getStateChanges)
  show "(k \<in> set (object_keys (changes_to_js (getStateChanges (JObj p old) (JObj q new))))) = (a \<noteq> b)"
    if h: "get_prop (JObj p old) k = JObj a xs \<and> get_prop (JObj q new) k = JObj b ys
           \<and> k \<noteq> ''__proto__''"
  proof -
    from h have "map_of old k = Some (JObj a xs)" by (blast dest: get_prop_object)
    then have "k \<in> set (map fst old)"
      by (auto dest: map_of_SomeD simp: rev_image_eqI)
    with h show ?thesis unfolding keys by simp
  qed
  show "logBuffer (trackStateChange st c act (JObj p old) (JObj q new) ctx s) =
       (if enabled (config s) \<and> level (config s) \<in> {''debug'', ''trace''}
        then push_bounded
               (createLogEntry st (config s) ''debug'' ''state'' ''change''
                  (c @ '' state changed via '' @ act)
                  (JObj 0 [(''oldState'', JObj p old), (''newState'', JObj q new),
                           (''changes'', changes_to_js (getStateChanges (JObj p old) (JObj q new)))])
                  ctx)
               (logBuffer s)
        else logBuffer s)"
    unfolding trackStateChange_eq shouldLog_levels(4)[symmetric] by (rule logBuffer_leveled)
qed

theorem state_changes_exact_witness:
  "own_property (changes_to_js (getStateChanges old_state new_state)) ''a'' = None
   \<and> own_property (changes_to_js (getStateChanges old_state new_state)) ''b'' =
       Some (JObj 0 [(''from'', JNum 2), (''to'', JNum 3)])
   \<and> own_property (changes_to_js (getStateChanges old_state new_state)) ''c'' =
       Some (JObj 0 [(''from'', JUndefined), (''to'', JNum 4)])
   \<and> set (object_keys (changes_to_js (getStateChanges old_state new_state))) = {''b'', ''c''}
   \<and> own_property (changes_to_js (getStateChanges constructor_state old_state)) ''constructor'' =
       Some (JObj 0 [(''from'', JNum 1), (''to'', JFun ''Object'')])
   \<and> own_property (changes_to_js (getStateChanges constructor_state old_state)) ''toString'' =
       Some (JObj 0 [(''from'', JUndefined), (''to'', JFun ''Object.prototype.toString'')])
   \<and> get_prop nested_old ''n'' = JObj 3 [(''x'', JNum 1)]
   \<and> get_prop nested_new ''n'' = JObj 4 [(''x'', JNum 1)]
   \<and> ''n'' \<in> set (object_keys (changes_to_js (getStateChanges nested_old nested_new)))
   \<and> ''m'' \<notin> set (object_keys (changes_to_js (getStateChanges nested_old nested_new)))
   \<and> logBuffer (trackStateChange sample_stamp ''store'' ''set'' old_state new_state JUndefined sample_logger) =
       [createLogEntry sample_stamp default_config ''debug'' ''state'' ''change''
          ''store state changed via set''
          (JObj 0 [(''oldState'', old_state), (''newState'', new_state),
                   (''changes'', changes_to_js (getStateChanges old_state new_state))])
          JUndefined]"
proof -
  note t = state_changes_exact[of 1 "[(''a'', JNum 1), (''b'', JNum 2)]"
              2 "[(''a'', JNum 1), (''b'', JNum 3), (''c'', JNum 4)]"]
  note u = state_changes_exact[of 1 "[(''n'', JObj 3 [(''x'', JNum 1)]), (''m'', JObj 5 [(''y'', JNum 1)])]"
              2 "[(''n'', JObj 4 [(''x'', JNum 1)]), (''m'', JObj 5 [(''y'', JNum 1)])]"]
  note v = state_changes_exact[of 1 "[(''constructor'', JNum 1), (''toString'', JUndefined)]"
              1 "[(''a'', JNum 1), (''b'', JNum 2)]"]
  note i = inherited_def object_prototype_names_def prototype_member_def
  have a: "own_property (changes_to_js (getStateChanges old_state new_state)) ''a'' = None"
    unfolding old_state_def new_state_def using t[of "''a''"] by simp
  have b: "own_property (changes_to_js (getStateChanges old_state new_state)) ''b'' =
       Some (JObj 0 [(''from'', JNum 2), (''to'', JNum 3)])"
    unfolding old_state_def new_state_def using t[of "''b''"] by simp
  have c: "own_property (changes_to_js (getStateChanges old_state new_state)) ''c'' =
       Some (JObj 0 [(''from'', JUndefined), (''to'', JNum 4)])"
    unfolding old_state_def new_state_def using t[of "''c''"] by (simp add: i)
  have k: "set (object_keys (changes_to_js (getStateChanges old_state new_state))) = {''b'', ''c''}"
    unfolding old_state_def new_state_def using t[of "''a''"] by (auto simp add: i)
  have d: "own_property (changes_to_js (getStateChanges constructor_state old_state)) ''constructor'' =
       Some (JObj 0 [(''from'', JNum 1), (''to'', JFun ''Object'')])"
    unfolding constructor_state_def old_state_def using v[of "''constructor''"] by (simp add: i)
  have e: "own_property (changes_to_js (getStateChanges constructor_state old_state)) ''toString'' =
       Some (JObj 0 [(''from'', JUndefined), (''to'', JFun ''Object.prototype.toString'')])"
    unfolding constructor_state_def old_state_def using v[of "''toString''"] by (simp add: i)
  have n: "''n'' \<in> set (object_keys (changes_to_js (getStateChanges nested_old nested_new)))"
    unfolding nested_old_def nested_new_def
    using u[of "''n''" 3 "[(''x'', JNum 1)]" 4 "[(''x'', JNum 1)]"] by simp
  have m: "''m'' \<notin> set (object_keys (changes_to_js (getStateChanges nested_old nested_new)))"
    unfolding nested_old_def nested_new_def
    using u[of "''m''" 5 "[(''y'', JNum 1)]" 5 "[(''y'', JNum 1)]"] by simp
  have l: "logBuffer (trackStateChange sample_stamp ''store'' ''set'' old_state new_state JUndefined sample_logger) =
       [createLogEntry sample_stamp default_config ''debug'' ''state'' ''change''
          ''store state changed via set''
          (JObj 0 [(''oldState'', old_state), (''newState'', new_state),
                   (''changes'', changes_to_js (getStateChanges old_state new_state))])
          JUndefined]"
    unfolding old_state_def new_state_def
    using t[of _ _ _ _ _ sample_stamp "''store''" "''set''" JUndefined sample_logger]
    by (simp add: sample_logger_def default_config_def push_bounded_def maxBufferSize_def)
  show ?thesis
    using a b c k d e n m l by (simp add: nested_old_def nested_new_def)
qed

text \<open>
  Claim C9, as stated, fails in its last part: when the level filter rejects \<open>debug\<close>
  entries (here the level is \<open>info\<close>) the call with a \<^verbatim>\<open>null\<close> state emits nothing.
\<close>

theorem null_state_entry_filtered_counterexample:
  "enabled (config info_logger)
   \<and> logBuffer (trackStateChange sample_stamp ''store'' ''set'' JNull new_state JUndefined info_logger) = []
   \<and> console (trackStateChange sample_stamp ''store'' ''set'' JNull new_state JUndefined info_logger) = []"
proof -
  have "\<not> shouldLog (config info_logger) ''debug''"
    by (simp add: shouldLog_levels info_logger_def with_level_def)
  then have "trackStateChange sample_stamp ''store'' ''set'' JNull new_state JUndefined info_logger
      = info_logger"
    unfolding trackStateChange_eq by (rule leveled_dropped)
  then show ?thesis
    by (simp add: info_logger_def with_level_def sample_logger_def default_config_def)
qed

text \<open>
  Claim C9, amended. If the old or the new state is \<^verbatim>\<open>null\<close> or \<^verbatim>\<open>undefined\<close>, the
  computed changes are empty, whatever the other argument is. The call is total (nothing
  is raised) and logs its \<open>debug\<close> entry with \<open>changes = {}\<close>; the entry is retained
  exactly when the logger is enabled with level \<open>debug\<close> or \<open>trace\<close>.
\<close>

theorem null_state_no_changes:
  assumes "oldState \<in> {JUndefined, JNull} \<or> newState \<in> {JUndefined, JNull}"
  shows "getStateChanges oldState newState = []
       \<and> changes_to_js (getStateChanges oldState newState) = JObj 0 []
       \<and> logBuffer (trackStateChange st c act oldState newState ctx s) =
           (if enabled (config s) \<and> level (config s) \<in> {''debug'', ''trace''}
            then push_bounded
                   (createLogEntry st (config s) ''debug'' ''state'' ''change''
                      (c @ '' state changed via '' @ act)
                      (JObj 0 [(''oldState'', oldState), (''newState'', newState),
                               (''changes'', JObj 0 [])])
                      ctx)
                   (logBuffer s)
            else logBuffer s)"
proof -
  from assms have "\<not> truthy oldState \<or> \<not> truthy newState" by auto
  then have e: "getStateChanges oldState newState = []"
    by (rule getStateChanges_falsy)
  then have j: "changes_to_js (getStateChanges oldState newState) = JObj 0 []"
    by (simp add: changes_to_js_def)
  have "logBuffer (trackStateChange st c act oldState newState ctx s) =
           (if shouldLog (config s) ''debug''
            then push_bounded
                   (createLogEntry st (config s) ''debug'' ''state'' ''change''
                      (c @ '' state changed via '' @ act)
                      (JObj 0 [(''oldState'', oldState), (''newState'', newState),
                               (''changes'', JObj 0 [])])
                      ctx)
                   (logBuffer s)
            else logBuffer s)"
    unfolding trackStateChange_eq j by (rule logBuffer_leveled)
  with e j show ?thesis
    unfolding shouldLog_levels by simp
qed

theorem null_state_no_changes_witness:
  "getStateChanges JNull new_state = []
   \<and> getStateChanges new_state JUndefined = []
   \<and> logBuffer (trackStateChange sample_stamp ''store'' ''set'' JNull new_state JUndefined sample_logger) =
       [createLogEntry sample_stamp default_config ''debug'' ''state'' ''change''
          ''store state changed via set''
          (JObj 0 [(''oldState'', JNull), (''newState'', new_state), (''changes'', JObj 0 [])])
          JUndefined]"
proof -
  have a: "JNull \<in> {JUndefined, JNull} \<or> new_state \<in> {JUndefined, JNull}" by simp
  have b: "new_state \<in> {JUndefined, JNull} \<or> JUndefined \<in> {JUndefined, JNull}" by simp
  show ?thesis
    using null_state_no_changes[OF a, of sample_stamp "''store''" "''set''" JUndefined sample_logger]
      null_state_no_changes[OF b, of sample_stamp "''store''" "''set''" JUndefined sample_logger]
    by (simp add: sample_logger_def default_config_def push_bounded_def maxBufferSize_def)
qed

section \<open>Timers\<close>

lemma map_of_fold_literal:
  "map_of (fold (\<lambda>(k, v). set_prop k v) kvs acc) = map_of acc ++ map_of (rev kvs)"
proof (induction kvs arbitrary: acc)
  case Nil
  then show ?case by simp
next
  case (Cons kv kvs)
  obtain k v where kv: "kv = (k, v)" by (cases kv)
  have "map_of (fold (\<lambda>(k, v). set_prop k v) (kv # kvs) acc)
      = map_of (set_prop k v acc) ++ map_of (rev kvs)"
    by (simp add: kv Cons.IH)
  also have "\<dots> = (map_of acc ++ map_of [(k, v)]) ++ map_of (rev kvs)"
    by (simp add: update_conv')
  also have "\<dots> = map_of acc ++ map_of (rev (kv # kvs))"
    by (simp add: kv)
  finally show ?case .
qed

lemma get_prop_object_literal:
  "get_prop (object_literal kvs) k =
     (case map_of (rev kvs) k of None \<Rightarrow> inherited KObject k | Some v \<Rightarrow> v)"
  by (simp add: object_literal_def map_of_fold_literal split: option.splits)

lemma show_int_minus: "(hd (show_int i) = CHR ''-'') = (i < 0)"
proof (cases "i < 0")
  case True
  then show ?thesis by (simp add: show_int_def)
next
  case False
  have "list_all is_digit (show_nat (nat i))" by (rule show_nat_digits)
  moreover have "show_nat (nat i) \<noteq> []" by (rule show_nat_not_Nil)
  ultimately have "is_digit (hd (show_nat (nat i)))" by (cases "show_nat (nat i)") simp_all
  then have "hd (show_nat (nat i)) \<noteq> CHR ''-''" by (auto simp add: is_digit_def)
  with False show ?thesis by (simp add: show_int_def)
qed

lemma toFixed2_minus: "(hd (toFixed2 i) = CHR ''-'') = (i < 0)"
proof -
  have "show_int i \<noteq> []" by (simp add: show_int_def show_nat_not_Nil)
  then have "hd (toFixed2 i) = hd (show_int i)" by (simp add: toFixed2_def)
  then show ?thesis by (simp add: show_int_minus)
qed

lemma startTimer_enabled:
  assumes "enabled (config s)" and "includePerformance (config s)"
  shows "fst (startTimer idNow rnd startNow st oper meta s) = oper @ ''_'' @ show_int idNow @ ''_'' @ rnd"
    and "map_of (performanceMetrics (snd (startTimer idNow rnd startNow st oper meta s)))
           (oper @ ''_'' @ show_int idNow @ ''_'' @ rnd) =
         Some \<lparr> operation = oper, startTime = startNow, endTime = None, duration = None,
                metadata = meta \<rparr>"
    and "config (snd (startTimer idNow rnd startNow st oper meta s)) = config s"
  using assms by (simp_all add: startTimer_def Let_def update_conv')

lemma endTimer_found:
  assumes "enabled (config s)" and "includePerformance (config s)" and "timerId \<noteq> []"
    and "map_of (performanceMetrics s) timerId = Some metric"
  shows "map_of (performanceMetrics (endTimer endNow st timerId extra s)) timerId = None"
    and "config (endTimer endNow st timerId extra s) = config s"
    and "logBuffer (endTimer endNow st timerId extra s) =
           (if shouldLog (config s) ''info''
            then push_bounded
                   (createLogEntry st (config s) ''info'' ''performance'' ''timer_end''
                      (''Completed: '' @ operation metric)
                      (object_literal
                         ([(''duration'', JStr (toFixed2 (endNow - startTime metric) @ ''ms'')),
                           (''operation'', JStr (operation metric)),
                           (''metadata'', metadata metric)] @ spread extra))
                      JUndefined)
                   (logBuffer s)
            else logBuffer s)"
  using assms by (simp_all add: endTimer_def Let_def delete_conv' logBuffer_leveled)

lemma endTimer_not_found:
  assumes "enabled (config s)" and "includePerformance (config s)" and "timerId \<noteq> []"
    and "map_of (performanceMetrics s) timerId = None"
  shows "endTimer endNow st timerId extra s =
           warn st ''performance'' ''timer_end'' (''Timer not found: '' @ timerId)
             JUndefined JUndefined s"
  using assms by (simp add: endTimer_def)

text \<open>
  Claim C3, as stated, fails in two ways. On an enabled logger whose level is \<open>error\<close>,
  \<open>startTimer\<close> returns a non-empty identifier, but neither the \<open>info\<close> entry of the
  first \<open>endTimer\<close> nor the \<open>warn\<close> entry of the second one passes the level filter:
  nothing is reported and no \<^verbatim>\<open>Timer not found\<close> entry is emitted. And the duration is
  the difference of two readings of \<^verbatim>\<open>Date.now()\<close>, which follows the clock of the
  system: when that clock was set back between the two calls (here from 10 to 5), the
  reported duration is negative.
\<close>

theorem timer_entries_filtered_counterexample:
  "fst (startTimer 5 ''abc'' 5 sample_stamp ''op'' JUndefined error_logger) = ''op_5_abc''
   \<and> logBuffer (endTimer 12 sample_stamp ''op_5_abc'' JUndefined
        (endTimer 9 sample_stamp ''op_5_abc'' JUndefined
          (snd (startTimer 5 ''abc'' 5 sample_stamp ''op'' JUndefined error_logger)))) = []
   \<and> console (endTimer 12 sample_stamp ''op_5_abc'' JUndefined
        (endTimer 9 sample_stamp ''op_5_abc'' JUndefined
          (snd (startTimer 5 ''abc'' 5 sample_stamp ''op'' JUndefined error_logger)))) = []
   \<and> startTimer 10 ''abc'' 10 sample_stamp ''op'' JUndefined sample_logger = (''op_10_abc'', late_logger)
   \<and> logBuffer (endTimer 5 sample_stamp ''op_10_abc'' JUndefined late_logger) =
       [createLogEntry sample_stamp default_config ''info'' ''performance'' ''timer_end''
          ''Completed: op''
          (JObj 0 [(''duration'', JStr ''-5.00ms''), (''operation'', JStr ''op''),
                   (''metadata'', JUndefined)])
          JUndefined]"
proof -
  have d: "config sample_logger = default_config" "logBuffer sample_logger = []"
    "console sample_logger = []" "performanceMetrics sample_logger = []"
    by (simp_all add: sample_logger_def)
  have dn: "\<not> shouldLog default_config ''trace''" "shouldLog default_config ''info''"
    by (simp_all add: shouldLog_levels default_config_def)
  have de: "enabled default_config" "includePerformance default_config"
    by (simp_all add: default_config_def)
  have i10: "show_int 10 = ''10''" by code_simp
  have f5: "toFixed2 (- 5) = ''-5.00''" by code_simp
  have l1: "late_logger = sample_logger\<lparr>performanceMetrics :=
         [(''op_10_abc'', \<lparr> operation = ''op'', startTime = 10, endTime = None, duration = None,
                            metadata = JUndefined \<rparr>)]\<rparr>"
    by (simp add: late_logger_def startTimer_def Let_def d de i10 leveled_dropped dn)
  have l2: "startTimer 10 ''abc'' 10 sample_stamp ''op'' JUndefined sample_logger = (''op_10_abc'', late_logger)"
    unfolding late_logger_def by (simp add: startTimer_def Let_def d de i10)
  have l3: "logBuffer (endTimer 5 sample_stamp ''op_10_abc'' JUndefined late_logger) =
       [createLogEntry sample_stamp default_config ''info'' ''performance'' ''timer_end''
          ''Completed: op''
          (JObj 0 [(''duration'', JStr ''-5.00ms''), (''operation'', JStr ''op''),
                   (''metadata'', JUndefined)])
          JUndefined]"
    unfolding l1
    by (simp add: endTimer_def Let_def d de dn f5 logBuffer_leveled push_bounded_def maxBufferSize_def
          object_literal_def spread_def)
  have c: "config error_logger = default_config\<lparr>level := ''error''\<rparr>"
    "logBuffer error_logger = []" "console error_logger = []" "performanceMetrics error_logger = []"
    by (simp_all add: error_logger_def with_level_def sample_logger_def)
  have n: "\<not> shouldLog (default_config\<lparr>level := ''error''\<rparr>) ''trace''"
    "\<not> shouldLog (default_config\<lparr>level := ''error''\<rparr>) ''info''"
    "\<not> shouldLog (default_config\<lparr>level := ''error''\<rparr>) ''warn''"
    by (simp_all add: shouldLog_levels)
  have e: "enabled (default_config\<lparr>level := ''error''\<rparr>)"
    "includePerformance (default_config\<lparr>level := ''error''\<rparr>)"
    by (simp_all add: default_config_def)
  have i: "show_int 5 = ''5''"
    by code_simp
  have s1: "startTimer 5 ''abc'' 5 sample_stamp ''op'' JUndefined error_logger =
      (''op_5_abc'', error_logger\<lparr>performanceMetrics :=
         [(''op_5_abc'', \<lparr> operation = ''op'', startTime = 5, endTime = None, duration = None,
                           metadata = JUndefined \<rparr>)]\<rparr>)"
    by (simp add: startTimer_def Let_def c e i leveled_dropped n)
  have s3: "endTimer 9 sample_stamp ''op_5_abc'' JUndefined
      (error_logger\<lparr>performanceMetrics :=
         [(''op_5_abc'', \<lparr> operation = ''op'', startTime = 5, endTime = None, duration = None,
                           metadata = JUndefined \<rparr>)]\<rparr>) = error_logger"
    by (simp add: endTimer_def Let_def c e leveled_dropped n)
  have s4: "endTimer 12 sample_stamp ''op_5_abc'' JUndefined error_logger = error_logger"
    by (simp add: endTimer_def Let_def c e leveled_dropped n)
  show ?thesis
    by (simp add: s1 s3 s4 c l2 l3)
qed

text \<open>
  Claim C3, amended. Let \<open>startTimer\<close> run on a logger with \<open>enabled\<close> and
  \<open>includePerformance\<close>, reading the clock as \<open>startNow\<close> and returning \<open>timerId\<close>,
  and let \<open>endTimer timerId\<close> run later, reading the clock as \<open>endNow\<close>, the logger
  still enabled with \<open>includePerformance\<close> and the metric still stored. Then \<open>timerId\<close>
  is not empty, \<open>endTimer\<close> removes the metric, and its \<open>info\<close> entry carries the
  duration \<open>endNow - startNow\<close>, the difference of the two readings (the additional
  data having no key \<open>duration\<close> of its own); the text of the duration starts with a
  minus sign exactly when the second reading is below the first. The entry is retained
  exactly when the level is \<open>info\<close>, \<open>debug\<close> or \<open>trace\<close>. A second
  \<open>endTimer timerId\<close> finds no metric and reads none: it leaves the timer mapping as it
  is and logs a \<open>warn\<close> entry \<^verbatim>\<open>Timer not found\<close>, retained exactly when the level is
  \<open>warn\<close>, \<open>info\<close>, \<open>debug\<close> or \<open>trace\<close>.
\<close>

theorem timer_round_trip:
  assumes "enabled (config s)" and "includePerformance (config s)"
    and "startTimer idNow rnd startNow st0 oper meta s = (timerId, s1)"
    and "enabled (config s2)" and "includePerformance (config s2)"
    and "map_of (performanceMetrics s2) timerId = map_of (performanceMetrics s1) timerId"
    and "''duration'' \<notin> fst ` set (spread extra)"
  shows "timerId \<noteq> []
       \<and> map_of (performanceMetrics (endTimer endNow st1 timerId extra s2)) timerId = None
       \<and> logBuffer (endTimer endNow st1 timerId extra s2) =
           (if level (config s2) \<in> {''info'', ''debug'', ''trace''}
            then push_bounded
                   (createLogEntry st1 (config s2) ''info'' ''performance'' ''timer_end''
                      (''Completed: '' @ oper)
                      (object_literal
                         ([(''duration'', JStr (toFixed2 (endNow - startNow) @ ''ms'')),
                           (''operation'', JStr oper),
                           (''metadata'', meta)] @ spread extra))
                      JUndefined)
                   (logBuffer s2)
            else logBuffer s2)
       \<and> get_prop (object_literal
                      ([(''duration'', JStr (toFixed2 (endNow - startNow) @ ''ms'')),
                        (''operation'', JStr oper),
                        (''metadata'', meta)] @ spread extra)) ''duration''
           = JStr (toFixed2 (endNow - startNow) @ ''ms'')
       \<and> (hd (toFixed2 (endNow - startNow) @ ''ms'') = CHR ''-'') = (endNow < startNow)
       \<and> performanceMetrics (endTimer endNow' st2 timerId extra' (endTimer endNow st1 timerId extra s2))
           = performanceMetrics (endTimer endNow st1 timerId extra s2)
       \<and> logBuffer (endTimer endNow' st2 timerId extra' (endTimer endNow st1 timerId extra s2)) =
           (if level (config s2) \<in> {''warn'', ''info'', ''debug'', ''trace''}
            then push_bounded
                   (createLogEntry st2 (config s2) ''warn'' ''performance'' ''timer_end''
                      (''Timer not found: '' @ timerId) JUndefined JUndefined)
                   (logBuffer (endTimer endNow st1 timerId extra s2))
            else logBuffer (endTimer endNow st1 timerId extra s2))"
proof -
  let ?m = "\<lparr> operation = oper, startTime = startNow, endTime = None, duration = None,
               metadata = meta \<rparr>"
  let ?s3 = "endTimer endNow st1 timerId extra s2"
  from assms(3) have id: "timerId = fst (startTimer idNow rnd startNow st0 oper meta s)"
    and s1: "s1 = snd (startTimer idNow rnd startNow st0 oper meta s)"
    by simp_all
  have tid: "timerId = oper @ ''_'' @ show_int idNow @ ''_'' @ rnd"
    unfolding id by (rule startTimer_enabled(1)[OF assms(1,2)])
  then have ne: "timerId \<noteq> []" by simp
  have "map_of (performanceMetrics s1) timerId = Some ?m"
    unfolding s1 tid by (rule startTimer_enabled(2)[OF assms(1,2)])
  with assms(6) have stored: "map_of (performanceMetrics s2) timerId = Some ?m" by simp
  note f = endTimer_found[OF assms(4,5) ne stored]
  have gone: "map_of (performanceMetrics ?s3) timerId = None" by (rule f(1))
  have cfg3: "config ?s3 = config s2" by (rule f(2))
  have buf: "logBuffer ?s3 =
           (if level (config s2) \<in> {''info'', ''debug'', ''trace''}
            then push_bounded
                   (createLogEntry st1 (config s2) ''info'' ''performance'' ''timer_end''
                      (''Completed: '' @ oper)
                      (object_literal
                         ([(''duration'', JStr (toFixed2 (endNow - startNow) @ ''ms'')),
                           (''operation'', JStr oper),
                           (''metadata'', meta)] @ spread extra))
                      JUndefined)
                   (logBuffer s2)
            else logBuffer s2)"
    using f(3)[of endNow st1 extra] assms(4) by (simp add: shouldLog_levels)
  have "map_of (rev (spread extra)) ''duration'' = None"
    using assms(7) by (simp add: map_of_eq_None_iff)
  then have dur: "get_prop (object_literal
                      ([(''duration'', JStr (toFixed2 (endNow - startNow) @ ''ms'')),
                        (''operation'', JStr oper),
                        (''metadata'', meta)] @ spread extra)) ''duration''
           = JStr (toFixed2 (endNow - startNow) @ ''ms'')"
    by (simp add: get_prop_object_literal map_add_def)
  have en3: "enabled (config ?s3)" "includePerformance (config ?s3)"
    using assms(4,5) cfg3 by simp_all
  have second: "endTimer endNow' st2 timerId extra' ?s3 =
      warn st2 ''performance'' ''timer_end'' (''Timer not found: '' @ timerId)
        JUndefined JUndefined ?s3"
    by (rule endTimer_not_found[OF en3 ne gone])
  have pm4: "performanceMetrics (endTimer endNow' st2 timerId extra' ?s3) = performanceMetrics ?s3"
    unfolding second by simp
  have buf4: "logBuffer (endTimer endNow' st2 timerId extra' ?s3) =
           (if level (config s2) \<in> {''warn'', ''info'', ''debug'', ''trace''}
            then push_bounded
                   (createLogEntry st2 (config s2) ''warn'' ''performance'' ''timer_end''
                      (''Timer not found: '' @ timerId) JUndefined JUndefined)
                   (logBuffer ?s3)
            else logBuffer ?s3)"
    unfolding second using assms(4) by (simp add: logBuffer_leveled shouldLog_levels cfg3)
  have "toFixed2 (endNow - startNow) \<noteq> []" by (simp add: toFixed2_def)
  then have nonneg: "(hd (toFixed2 (endNow - startNow) @ ''ms'') = CHR ''-'') = (endNow < startNow)"
    by (simp add: toFixed2_minus)
  show ?thesis
    by (intro conjI; (rule ne | rule gone | rule buf | rule dur | rule nonneg | rule pm4 | rule buf4))
qed

theorem timer_round_trip_witness:
  "startTimer 5 ''abc'' 5 sample_stamp ''op'' JUndefined sample_logger = (''op_5_abc'', running_logger)
   \<and> map_of (performanceMetrics (endTimer 9 sample_stamp ''op_5_abc'' JUndefined running_logger))
         ''op_5_abc'' = None
   \<and> logBuffer (endTimer 9 sample_stamp ''op_5_abc'' JUndefined running_logger) =
       [createLogEntry sample_stamp default_config ''info'' ''performance'' ''timer_end''
          ''Completed: op''
          (JObj 0 [(''duration'', JStr ''4.00ms''), (''operation'', JStr ''op''),
                   (''metadata'', JUndefined)])
          JUndefined]
   \<and> logBuffer (endTimer 12 sample_stamp ''op_5_abc'' JUndefined
        (endTimer 9 sample_stamp ''op_5_abc'' JUndefined running_logger)) =
       [createLogEntry sample_stamp default_config ''info'' ''performance'' ''timer_end''
          ''Completed: op''
          (JObj 0 [(''duration'', JStr ''4.00ms''), (''operation'', JStr ''op''),
                   (''metadata'', JUndefined)])
          JUndefined,
        createLogEntry sample_stamp default_config ''warn'' ''performance'' ''timer_end''
          ''Timer not found: op_5_abc'' JUndefined JUndefined]"
proof -
  have e: "enabled (config sample_logger)" "includePerformance (config sample_logger)"
    by (simp_all add: sample_logger_def default_config_def)
  have i: "show_int 5 = ''5''" by code_simp
  have f: "toFixed2 4 = ''4.00''" by code_simp
  have st: "startTimer 5 ''abc'' 5 sample_stamp ''op'' JUndefined sample_logger =
      (''op_5_abc'', running_logger)"
    using startTimer_enabled(1)[OF e, of 5 "''abc''" 5 sample_stamp "''op''" JUndefined]
    unfolding running_logger_def i
    by (simp add: prod_eq_iff)
  have c: "config running_logger = default_config"
    unfolding running_logger_def startTimer_enabled(3)[OF e] by (simp add: sample_logger_def)
  have e2: "enabled (config running_logger)" "includePerformance (config running_logger)"
    by (simp_all add: c default_config_def)
  have b: "logBuffer running_logger = []"
    by (simp add: running_logger_def startTimer_def Let_def e logBuffer_leveled shouldLog_levels)
       (simp add: sample_logger_def default_config_def)
  have sp: "''duration'' \<notin> fst ` set (spread JUndefined)"
    by (simp add: spread_def)
  have l: "level default_config = ''debug''" by (simp add: default_config_def)
  show ?thesis
    using timer_round_trip[OF e st e2 refl sp, of 9 sample_stamp 12 sample_stamp JUndefined]
    by (simp add: st c l b f object_literal_def spread_def push_bounded_def maxBufferSize_def)
qed

section \<open>Export and parse\<close>

text \<open>Small texts, written and read.\<close>

lemma JSON_stringify_example:
  "JSON_stringify (JArr 0 [JNum 1, JObj 0 [(''a'', JNull), (''u'', JUndefined)], JArr 0 [JNaN]]) =
     Some (''[1,{'' @ [CHR 0x22] @ ''a'' @ [CHR 0x22] @ '':null},[null]]'')"
  by code_simp

lemma JSON_stringify_2_example:
  "JSON_stringify_2 (JArr 0 [JNum 1, JObj 0 [(''a'', JNull), (''u'', JUndefined)], JArr 0 []]) =
     Some (''['' @ [CHR 0x0A]
           @ ''  1,'' @ [CHR 0x0A]
           @ ''  {'' @ [CHR 0x0A]
           @ ''    '' @ [CHR 0x22] @ ''a'' @ [CHR 0x22] @ '': null'' @ [CHR 0x0A]
           @ ''  },'' @ [CHR 0x0A]
           @ ''  []'' @ [CHR 0x0A]
           @ '']'')"
  by code_simp

lemma JSON_parse_example:
  "JSON_parse (''[1, {'' @ [CHR 0x22] @ ''a'' @ [CHR 0x22] @ '': [true, null]}]'') =
     Some (JArr 0 [JNum 1, JObj 0 [(''a'', JArr 0 [JBool True, JNull])]])"
  "JSON_parse ''[1,]'' = None"
  "JSON_parse ''[01]'' = None"
  "JSON_parse ''nul'' = None"
  by code_simp+






declare lex.simps(2) [simp del]








declare lex_string.simps(2) [simp del]


















lemma toks_None [simp]: "(toks v = None) = (\<not> written v)"
  by (cases v) (simp_all split: kind.splits)





declare ser.simps(8) [simp del] toks.simps(8) [simp del] json_image.simps(3) [simp del]
  content.simps(2) [simp del]

lemma delimited_simps [simp]:
  "delimited []" "delimited (CHR '','' # cs)" "delimited (CHR '']'' # cs)"
  "delimited (CHR ''}'' # cs)" "delimited (CHR 0x0A # cs)"
  by (simp_all add: delimited_def is_digit_def)





lemma unwritten_cases: "(\<not> written x) = (x = JUndefined \<or> (\<exists>f. x = JFun f) \<or> x = JProto KFunction)"
  by (cases x) simp_all










































end
